theory Spec2Isabelle
  imports Complex_Main
begin

section \<open>Sweeps over layers and beta for relation operators (src/sweeps.py)\<close>

text \<open>
  Python floats are modelled as rationals (rounding and NaN are outside the model),
  Python ints as \<open>int\<close>, lists as lists, and every exception the source can raise in its
  own code as a value of \<open>error\<close>.
\<close>

subsection \<open>Python primitives\<close>

datatype error = IndexError | KeyError | ValueError | AssertionError | RuntimeError | LookupError

text \<open>\<open>xs[i]\<close>: negative indices count from the end, anything else out of range raises.\<close>

definition pyidx :: "'a list \<Rightarrow> int \<Rightarrow> error + 'a" where
  "pyidx xs i =
     (if 0 \<le> i \<and> i < int (length xs) then Inr (xs ! nat i)
      else if i < 0 \<and> - int (length xs) \<le> i then Inr (xs ! nat (int (length xs) + i))
      else Inl IndexError)"

text \<open>
  \<open>max(iterable, key=f)\<close>: ValueError on an empty iterable; the keys are computed in
  order, and the running maximum is replaced only by a strictly greater key, so the first
  maximal item wins.
\<close>

fun max_loop :: "('a \<Rightarrow> error + rat) \<Rightarrow> 'a \<Rightarrow> rat \<Rightarrow> 'a list \<Rightarrow> error + 'a" where
  "max_loop f best kb [] = Inr best"
| "max_loop f best kb (y # ys) =
     (case f y of
        Inl e \<Rightarrow> Inl e
      | Inr ky \<Rightarrow> if ky > kb then max_loop f y ky ys else max_loop f best kb ys)"

fun py_max_key :: "('a \<Rightarrow> error + rat) \<Rightarrow> 'a list \<Rightarrow> error + 'a" where
  "py_max_key f [] = Inl ValueError"
| "py_max_key f (x # xs) =
     (case f x of Inl e \<Rightarrow> Inl e | Inr kx \<Rightarrow> max_loop f x kx xs)"

text \<open>
  A \<open>dict\<close> keeps its keys in insertion order, which \<open>max\<close> over a dict observes: it is an
  association list with one entry per key. \<open>dict_append\<close> is
  \<open>d[k].append(v)\<close> on a \<open>defaultdict(list)\<close>; \<open>dict_set\<close> is \<open>d[k] = v\<close>.
\<close>

fun dict_append :: "'k \<Rightarrow> 'v \<Rightarrow> ('k \<times> 'v list) list \<Rightarrow> ('k \<times> 'v list) list" where
  "dict_append k v [] = [(k, [v])]"
| "dict_append k v ((k', vs) # d) =
     (if k' = k then (k', vs @ [v]) # d else (k', vs) # dict_append k v d)"

fun dict_set :: "'k \<Rightarrow> 'v \<Rightarrow> ('k \<times> 'v) list \<Rightarrow> ('k \<times> 'v) list" where
  "dict_set k v [] = [(k, v)]"
| "dict_set k v ((k', v') # d) =
     (if k' = k then (k', v) # d else (k', v') # dict_set k v d)"

definition dict_get :: "('k \<times> 'v) list \<Rightarrow> 'k \<Rightarrow> error + 'v" where
  "dict_get d k = (case map_of d k of None \<Rightarrow> Inl KeyError | Some v \<Rightarrow> Inr v)"

subsection \<open>Result records\<close>

text \<open>
  Modelled from the spec: \<open>data.RelationSample\<close> and \<open>data.Relation\<close> are not in
  sweeps.py. A sample is a subject with its object, a relation a name, its prompt
  templates in order and its samples; the sweep reads no other field. The fields of the
  result classes carry a prefix where two classes share a field name.
\<close>

record RelationSample =
  subject :: string
  object :: string

record Relation =
  name :: string
  prompt_templates :: "string list"
  samples :: "RelationSample list"

record SweepFaithfulnessBetaResults =
  br_beta :: rat
  br_recall :: "rat list"

record SweepFaithfulnessTrainResults =
  tr_samples :: "RelationSample list"
  tr_betas :: "SweepFaithfulnessBetaResults list"

record SweepFaithfulnessLayerResults =
  lr_layer :: int
  lr_result :: SweepFaithfulnessTrainResults

record SweepFaithfulnessTrialResults =
  prompt_template :: string
  train_samples :: "RelationSample list"
  layers :: "SweepFaithfulnessLayerResults list"

text \<open>
  Modelled from the spec: \<open>metrics.AggregateMetric\<close> and its \<open>aggregate\<close> are not in
  sweeps.py; the spec describes the summary as the mean and variance across trials.
\<close>

record AggregateMetric =
  mean :: rat
  variance :: rat

definition aggregate :: "rat list \<Rightarrow> AggregateMetric" where
  "aggregate vs =
     (let n = of_nat (length vs); m = sum_list vs / n
      in \<lparr> mean = m, variance = sum_list (map (\<lambda>v. (v - m) * (v - m)) vs) / n \<rparr>)"

record SweepFaithfulnessLayerSummary =
  ls_layer :: int
  ls_beta :: AggregateMetric
  ls_recall :: AggregateMetric

record SweepFaithfulnessRelationResults =
  relation_name :: string
  trials :: "SweepFaithfulnessTrialResults list"

record SweepFaithfulnessResuts =
  relations :: "SweepFaithfulnessRelationResults list"

subsection \<open>\<open>SweepFaithfulnessTrainResults\<close>\<close>

text \<open>\<open>best\<close>: \<open>max(self.betas, key=lambda x: x.recall[k - 1])\<close>.\<close>

definition best :: "SweepFaithfulnessTrainResults \<Rightarrow> int \<Rightarrow> error + SweepFaithfulnessBetaResults" where
  "best self k = py_max_key (\<lambda>x. pyidx (br_recall x) (k - 1)) (tr_betas self)"

text \<open>
  \<open>summarize\<close> only logs at debug level, but its f-string evaluates \<open>self.best()\<close> and
  \<open>best.recall[0]\<close>, so it raises what they raise.
\<close>

definition summarize :: "SweepFaithfulnessTrainResults \<Rightarrow> error + unit" where
  "summarize self =
     (case best self 1 of
        Inl e \<Rightarrow> Inl e
      | Inr b \<Rightarrow> (case pyidx (br_recall b) 0 of Inl e \<Rightarrow> Inl e | Inr _ \<Rightarrow> Inr ()))"

subsection \<open>\<open>SweepFaithfulnessRelationResults\<close>\<close>

type_synonym layer_entry = "int \<times> rat \<times> rat"

text \<open>The two nested loops of \<open>by_layer\<close> filling \<open>results_by_layer\<close>.\<close>

fun collect_layers ::
  "int \<Rightarrow> SweepFaithfulnessLayerResults list \<Rightarrow> (int \<times> layer_entry list) list
     \<Rightarrow> error + (int \<times> layer_entry list) list" where
  "collect_layers k [] d = Inr d"
| "collect_layers k (l # ls) d =
     (case best (lr_result l) 1 of
        Inl e \<Rightarrow> Inl e
      | Inr b \<Rightarrow>
          (case pyidx (br_recall b) (k - 1) of
             Inl e \<Rightarrow> Inl e
           | Inr r \<Rightarrow> collect_layers k ls (dict_append (lr_layer l) (lr_layer l, br_beta b, r) d)))"

fun collect_trials ::
  "int \<Rightarrow> SweepFaithfulnessTrialResults list \<Rightarrow> (int \<times> layer_entry list) list
     \<Rightarrow> error + (int \<times> layer_entry list) list" where
  "collect_trials k [] d = Inr d"
| "collect_trials k (t # ts) d =
     (case collect_layers k (layers t) d of
        Inl e \<Rightarrow> Inl e
      | Inr d' \<Rightarrow> collect_trials k ts d')"

definition layer_summary :: "int \<times> layer_entry list \<Rightarrow> int \<times> SweepFaithfulnessLayerSummary" where
  "layer_summary e =
     (fst e, \<lparr> ls_layer = fst e,
               ls_beta = aggregate (map (\<lambda>x. fst (snd x)) (snd e)),
               ls_recall = aggregate (map (\<lambda>x. snd (snd x)) (snd e)) \<rparr>)"

definition by_layer ::
  "SweepFaithfulnessRelationResults \<Rightarrow> int \<Rightarrow> error + (int \<times> SweepFaithfulnessLayerSummary) list" where
  "by_layer self k =
     (case collect_trials k (trials self) [] of
        Inl e \<Rightarrow> Inl e
      | Inr d \<Rightarrow> Inr (map layer_summary d))"

text \<open>
  \<open>best\<close> of a relation result: the source calls \<open>self.by_layer()\<close> with no argument, so
  the summaries are those of \<open>k = 1\<close> whatever \<open>k\<close> is; \<open>max\<close> then runs over the keys of
  the dict.
\<close>

definition best_layer ::
  "SweepFaithfulnessRelationResults \<Rightarrow> int \<Rightarrow> error + SweepFaithfulnessLayerSummary" where
  "best_layer self k =
     (case by_layer self 1 of
        Inl e \<Rightarrow> Inl e
      | Inr results_by_layer \<Rightarrow>
          (case py_max_key
                  (\<lambda>x. case dict_get results_by_layer x of
                         Inl e \<Rightarrow> Inl e
                       | Inr s \<Rightarrow> Inr (mean (ls_recall s)))
                  (map fst results_by_layer) of
             Inl e \<Rightarrow> Inl e
           | Inr l \<Rightarrow> dict_get results_by_layer l))"

text \<open>\<open>summarize\<close> of a relation result evaluates \<open>self.by_layer(k=k)\<close> and logs it.\<close>

definition rel_summarize :: "SweepFaithfulnessRelationResults \<Rightarrow> int \<Rightarrow> error + unit" where
  "rel_summarize self k = (case by_layer self k of Inl e \<Rightarrow> Inl e | Inr _ \<Rightarrow> Inr ())"

subsection \<open>Collaborators and state of the sweep\<close>

text \<open>
  Modelled from the spec: the model and tokenizer handle, the prompt renderer, the
  token-range locator, \<open>Relation.split\<close>, the estimator with the operator it fits and the
  recall metric are not in sweeps.py. They are parameters of the sweep, with the
  interfaces the spec lists: \<open>'g\<close> is the state of the random generator that \<open>split\<close>
  draws from, \<open>'r\<close> one padded row of token ids with its attention mask, \<open>'o\<close> the offset
  mapping of one row, \<open>'v\<close> a hidden-state vector and \<open>'w\<close> the weights of an operator.
  \<open>forward\<close> returns the hidden states indexed by layer (the embedding layer first),
  then row, then token position. \<open>estimator\<close> returns the weights and the bias (or none)
  of the operator it fits; \<open>predict\<close> is the operator call, reading the bias the operator
  holds at that moment, and returns the predicted tokens.
\<close>

record ('g, 'r, 'o, 'v, 'w) env =
  determine_layers :: "int list"
  split :: "'g \<Rightarrow> Relation \<Rightarrow> int \<Rightarrow> (Relation \<times> Relation) \<times> 'g"
  make_prompt :: "string \<Rightarrow> string \<Rightarrow> RelationSample list \<Rightarrow> string"
  tokenizer :: "string list \<Rightarrow> ('r \<times> 'o) list"
  forward :: "'r list \<Rightarrow> 'v list list list"
  find_token_range :: "string \<Rightarrow> string \<Rightarrow> 'o \<Rightarrow> (int \<times> int) option"
  estimator :: "int \<Rightarrow> Relation \<Rightarrow> 'w \<times> rat list option"
  predict :: "'w \<Rightarrow> rat list \<Rightarrow> string \<Rightarrow> 'v \<Rightarrow> int \<Rightarrow> string list"
  recall_metric :: "string list list \<Rightarrow> string list \<Rightarrow> rat list"

record config =
  h_layers :: "int list option"
  betas :: "rat list option"
  n_trials :: int
  n_train_samples :: int
  recall_k :: int
  batch_size :: int
  resume :: bool

text \<open>
  What the sweep does besides returning: the warning it logs and the calls it makes to
  the activation precompute and to the estimator, in order.
\<close>

datatype event =
    Warning_not_enough_samples string nat int
  | Call_precompute_hs string "string list" int "RelationSample list"
  | Call_estimator int Relation

record 'g world =
  rng :: 'g
  store :: "string \<rightharpoonup> SweepFaithfulnessRelationResults"
  trace :: "event list"

text \<open>
  Modelled from the spec: \<open>experiment_utils.load_results_file\<close> and \<open>save_results_file\<close>
  are not in sweeps.py. The checkpoint store of a results directory is keyed by relation
  name; \<open>load\<close> gives the stored result or nothing, and only when resuming; \<open>save\<close> stores
  the result under the name.
\<close>

definition load_results_file :: "'g world \<Rightarrow> string \<Rightarrow> bool \<Rightarrow> SweepFaithfulnessRelationResults option" where
  "load_results_file w nm res = (if res then store w nm else None)"

definition save_results_file :: "'g world \<Rightarrow> string \<Rightarrow> SweepFaithfulnessRelationResults \<Rightarrow> 'g world" where
  "save_results_file w nm r = w\<lparr>store := (store w)(nm \<mapsto> r)\<rparr>"

definition emit :: "event \<Rightarrow> 'g world \<Rightarrow> 'g world" where
  "emit e w = w\<lparr>trace := trace w @ [e]\<rparr>"

subsection \<open>\<open>_precompute_hs\<close>\<close>

text \<open>
  \<open>range(0, n, step)\<close> for \<open>n \<ge> 0\<close>: ValueError for a zero step, empty for a negative one.
\<close>

definition py_range0 :: "nat \<Rightarrow> int \<Rightarrow> error + nat list" where
  "py_range0 n step =
     (if step = 0 then Inl ValueError
      else if step < 0 then Inr []
      else Inr (map (\<lambda>j. j * nat step) [0..<(n + nat step - 1) div nat step]))"

text \<open>\<open>xs[i : i + b]\<close> for \<open>i \<ge> 0\<close> and \<open>b > 0\<close>.\<close>

definition slice :: "'a list \<Rightarrow> nat \<Rightarrow> nat \<Rightarrow> 'a list" where
  "slice xs i b = take b (drop i xs)"

text \<open>
  \<open>torch.cat(ts, dim=1)\<close> of tensors indexed by layer, then row: it needs at least one
  tensor and the same number of layers in each, and joins the rows layer by layer.
\<close>

definition torch_cat1 :: "'a list list list \<Rightarrow> error + 'a list list" where
  "torch_cat1 ts =
     (case ts of
        [] \<Rightarrow> Inl RuntimeError
      | t # ts' \<Rightarrow>
          if list_all (\<lambda>t'. length t' = length t) ts'
          then Inr (map (\<lambda>l. concat (map (\<lambda>c. c ! l) ts)) [0..<length t])
          else Inl RuntimeError)"

text \<open>The batches: \<open>torch.stack(outputs.hidden_states)[1:]\<close> for every slice of rows.\<close>

definition batched_hidden_states ::
  "('g, 'r, 'o, 'v, 'w) env \<Rightarrow> 'r list \<Rightarrow> int \<Rightarrow> error + 'v list list list list" where
  "batched_hidden_states env input_ids bs =
     (case py_range0 (length input_ids) bs of
        Inl e \<Rightarrow> Inl e
      | Inr starts \<Rightarrow> Inr (map (\<lambda>i. tl (forward env (slice input_ids i (nat bs)))) starts))"

text \<open>\<open>hidden_states[:, i, h_index]\<close>: row \<open>i\<close> and position \<open>h_index\<close> of every layer.\<close>

fun index_layers :: "'v list list list \<Rightarrow> int \<Rightarrow> int \<Rightarrow> error + 'v list" where
  "index_layers [] i h = Inr []"
| "index_layers (t # ts) i h =
     (case pyidx t i of
        Inl e \<Rightarrow> Inl e
      | Inr row \<Rightarrow>
          (case pyidx row h of
             Inl e \<Rightarrow> Inl e
           | Inr v \<Rightarrow> (case index_layers ts i h of Inl e \<Rightarrow> Inl e | Inr vs \<Rightarrow> Inr (v # vs))))"

text \<open>The loop over \<open>enumerate(zip(subjects, prompts))\<close> that fills \<open>hs_by_subj\<close>.\<close>

fun fill_hs ::
  "('g, 'r, 'o, 'v, 'w) env \<Rightarrow> 'v list list list \<Rightarrow> 'o list \<Rightarrow> nat \<Rightarrow> (string \<times> string) list
     \<Rightarrow> (string \<times> 'v list) list \<Rightarrow> error + (string \<times> 'v list) list" where
  "fill_hs env hidden offset_mapping i [] d = Inr d"
| "fill_hs env hidden offset_mapping i ((subj, prompt) # rest) d =
     (case pyidx offset_mapping (int i) of
        Inl e \<Rightarrow> Inl e
      | Inr off \<Rightarrow>
          (case find_token_range env prompt subj off of
             None \<Rightarrow> Inl LookupError
           | Some (_, h_index) \<Rightarrow>
               (case index_layers hidden (int i) (h_index - 1) of
                  Inl e \<Rightarrow> Inl e
                | Inr hs \<Rightarrow> fill_hs env hidden offset_mapping (Suc i) rest (dict_set subj hs d))))"

definition precompute_hs ::
  "('g, 'r, 'o, 'v, 'w) env \<Rightarrow> string \<Rightarrow> string list \<Rightarrow> RelationSample list \<Rightarrow> int
     \<Rightarrow> error + (string \<times> 'v list) list" where
  "precompute_hs env tmpl subjects examples bs =
     (let prompts = map (\<lambda>s. make_prompt env tmpl s examples) subjects;
          inputs = tokenizer env prompts
      in case batched_hidden_states env (map fst inputs) bs of
           Inl e \<Rightarrow> Inl e
         | Inr batched \<Rightarrow>
             (case torch_cat1 batched of
                Inl e \<Rightarrow> Inl e
              | Inr hidden \<Rightarrow> fill_hs env hidden (map snd inputs) 0 (zip subjects prompts) []))"

subsection \<open>The operator's bias and the sweep over beta\<close>

text \<open>
  Tensors that the code mutates live in a heap of cells; an address is an index into it.
  \<open>clone\<close> allocates a new cell with the same contents, and
  \<open>operator.bias[:] = t\<close> overwrites the cell the operator's bias points to.
\<close>

type_synonym heap = "rat list list"

definition alloc :: "rat list \<Rightarrow> heap \<Rightarrow> nat \<times> heap" where
  "alloc t h = (length h, h @ [t])"

definition rd :: "heap \<Rightarrow> nat \<Rightarrow> rat list" where
  "rd h a = h ! a"

definition wr :: "heap \<Rightarrow> nat \<Rightarrow> rat list \<Rightarrow> heap" where
  "wr h a t = h[a := t]"

definition clone :: "heap \<Rightarrow> nat \<Rightarrow> nat \<times> heap" where
  "clone h a = alloc (rd h a) h"

text \<open>
  The cells a layer's iteration works on: where \<open>operator.bias\<close> lives, where its clone
  \<open>bias\<close> lives, and the heap.
\<close>

record bias_cells =
  op_bias_at :: nat
  bias_at :: nat
  cells :: heap

text \<open>\<open>bias * beta\<close>, elementwise.\<close>

definition scale :: "rat list \<Rightarrow> rat \<Rightarrow> rat list" where
  "scale t b = map (\<lambda>x. x * b) t"

text \<open>
  The loop \<open>for beta in betas\<close>: \<open>op_bias\<close> is the address of \<open>operator.bias\<close>, \<open>bias\<close> the
  address of the clone taken before the loop.
\<close>

fun beta_loop ::
  "('g, 'r, 'o, 'v, 'w) env \<Rightarrow> 'w \<Rightarrow> nat \<Rightarrow> nat \<Rightarrow> (string \<times> 'v) list \<Rightarrow> string list \<Rightarrow> int
     \<Rightarrow> rat list \<Rightarrow> heap \<Rightarrow> SweepFaithfulnessBetaResults list \<times> heap" where
  "beta_loop env wts op_bias bias subj_hs test_objects k [] h = ([], h)"
| "beta_loop env wts op_bias bias subj_hs test_objects k (b # bs) h =
     (let h1 = wr h op_bias (scale (rd h bias) b);
          pred_objects = map (\<lambda>(subj, hv). predict env wts (rd h1 op_bias) subj hv k) subj_hs;
          recall = recall_metric env pred_objects test_objects;
          (rest, h2) = beta_loop env wts op_bias bias subj_hs test_objects k bs h1
      in (\<lparr> br_beta = b, br_recall = recall \<rparr> # rest, h2))"

subsection \<open>The loops over layers, trials and relations\<close>

text \<open>\<open>[hs_by_subj[x.subject][h_layer, None] for x in test_samples]\<close>.\<close>

fun test_hs_of ::
  "(string \<times> 'v list) list \<Rightarrow> int \<Rightarrow> RelationSample list \<Rightarrow> error + 'v list" where
  "test_hs_of hs_by_subj h_layer [] = Inr []"
| "test_hs_of hs_by_subj h_layer (x # xs) =
     (case dict_get hs_by_subj (subject x) of
        Inl e \<Rightarrow> Inl e
      | Inr hs \<Rightarrow>
          (case pyidx hs h_layer of
             Inl e \<Rightarrow> Inl e
           | Inr hv \<Rightarrow>
               (case test_hs_of hs_by_subj h_layer xs of
                  Inl e \<Rightarrow> Inl e
                | Inr hvs \<Rightarrow> Inr (hv # hvs))))"

text \<open>
  One iteration of \<open>for h_layer in h_layers\<close>. The fitted operator is a fresh object: its
  bias is the first cell of an otherwise empty heap, and the operator does not outlive
  the iteration. The cells as the sweep over beta leaves them are returned with the
  result.
\<close>

definition run_layer ::
  "('g, 'r, 'o, 'v, 'w) env \<Rightarrow> rat list \<Rightarrow> int \<Rightarrow> Relation \<Rightarrow> string \<Rightarrow> RelationSample list
     \<Rightarrow> RelationSample list \<Rightarrow> (string \<times> 'v list) list \<Rightarrow> int \<Rightarrow> 'g world
     \<Rightarrow> error + ((SweepFaithfulnessLayerResults \<times> bias_cells) \<times> 'g world)" where
  "run_layer env bts k relation tmpl train test hs_by_subj h_layer w =
     (let fit_on = relation\<lparr>prompt_templates := [tmpl], samples := train\<rparr>;
          w1 = emit (Call_estimator h_layer fit_on) w;
          (wts, fitted_bias) = estimator env h_layer fit_on
      in case fitted_bias of
           None \<Rightarrow> Inl AssertionError
         | Some b0 \<Rightarrow>
             (let (op_bias, h0) = alloc b0 [];
                  (bias, h1) = clone h0 op_bias
              in case test_hs_of hs_by_subj h_layer test of
                   Inl e \<Rightarrow> Inl e
                 | Inr test_hs \<Rightarrow>
                     (let (results_by_beta, h2) =
                            beta_loop env wts op_bias bias (zip (map subject test) test_hs)
                              (map object test) k bts h1;
                          train_result = \<lparr> tr_samples = train, tr_betas = results_by_beta \<rparr>
                      in case summarize train_result of
                           Inl e \<Rightarrow> Inl e
                         | Inr _ \<Rightarrow>
                             Inr ((\<lparr> lr_layer = h_layer, lr_result = train_result \<rparr>,
                                   \<lparr> op_bias_at = op_bias, bias_at = bias, cells = h2 \<rparr>), w1))))"

fun layer_loop ::
  "('g, 'r, 'o, 'v, 'w) env \<Rightarrow> rat list \<Rightarrow> int \<Rightarrow> Relation \<Rightarrow> string \<Rightarrow> RelationSample list
     \<Rightarrow> RelationSample list \<Rightarrow> (string \<times> 'v list) list \<Rightarrow> int list \<Rightarrow> 'g world
     \<Rightarrow> error + (SweepFaithfulnessLayerResults list \<times> 'g world)" where
  "layer_loop env bts k relation tmpl train test hs_by_subj [] w = Inr ([], w)"
| "layer_loop env bts k relation tmpl train test hs_by_subj (l # ls) w =
     (case run_layer env bts k relation tmpl train test hs_by_subj l w of
        Inl e \<Rightarrow> Inl e
      | Inr ((r, _), w1) \<Rightarrow>
          (case layer_loop env bts k relation tmpl train test hs_by_subj ls w1 of
             Inl e \<Rightarrow> Inl e
           | Inr (rs, w2) \<Rightarrow> Inr (r # rs, w2)))"

text \<open>
  One iteration of \<open>for trial in range(n_trials)\<close>; \<open>None\<close> is the \<open>continue\<close> that skips
  the trial.
\<close>

definition run_trial ::
  "('g, 'r, 'o, 'v, 'w) env \<Rightarrow> int list \<Rightarrow> rat list \<Rightarrow> config \<Rightarrow> Relation \<Rightarrow> string \<Rightarrow> 'g world
     \<Rightarrow> error + (SweepFaithfulnessTrialResults option \<times> 'g world)" where
  "run_trial env lys bts cfg relation tmpl w =
     (if int (length (samples relation)) \<le> n_train_samples cfg
      then Inr (None,
             emit (Warning_not_enough_samples (name relation) (length (samples relation))
                     (n_train_samples cfg)) w)
      else
        (let ((train_relation, test_relation), g) = split env (rng w) relation (n_train_samples cfg);
             train = samples train_relation;
             train_icl = butlast train;
             subjects = map subject (samples relation);
             w1 = emit (Call_precompute_hs tmpl subjects (batch_size cfg) train_icl) (w\<lparr>rng := g\<rparr>)
         in case precompute_hs env tmpl subjects train_icl (batch_size cfg) of
              Inl e \<Rightarrow> Inl e
            | Inr hs_by_subj \<Rightarrow>
                (case layer_loop env bts (recall_k cfg) relation tmpl train (samples test_relation)
                        hs_by_subj lys w1 of
                   Inl e \<Rightarrow> Inl e
                 | Inr (layer_results, w2) \<Rightarrow>
                     Inr (Some \<lparr> prompt_template = tmpl, train_samples = train,
                                 layers = layer_results \<rparr>, w2))))"

fun trial_loop ::
  "('g, 'r, 'o, 'v, 'w) env \<Rightarrow> int list \<Rightarrow> rat list \<Rightarrow> config \<Rightarrow> Relation \<Rightarrow> string \<Rightarrow> nat
     \<Rightarrow> 'g world \<Rightarrow> error + (SweepFaithfulnessTrialResults list \<times> 'g world)" where
  "trial_loop env lys bts cfg relation tmpl 0 w = Inr ([], w)"
| "trial_loop env lys bts cfg relation tmpl (Suc n) w =
     (case run_trial env lys bts cfg relation tmpl w of
        Inl e \<Rightarrow> Inl e
      | Inr (r, w1) \<Rightarrow>
          (case trial_loop env lys bts cfg relation tmpl n w1 of
             Inl e \<Rightarrow> Inl e
           | Inr (rs, w2) \<Rightarrow> Inr ((case r of None \<Rightarrow> rs | Some t \<Rightarrow> t # rs), w2)))"

text \<open>One iteration of \<open>for ri, relation in enumerate(dataset.relations)\<close>.\<close>

definition sweep_relation ::
  "('g, 'r, 'o, 'v, 'w) env \<Rightarrow> int list \<Rightarrow> rat list \<Rightarrow> config \<Rightarrow> Relation \<Rightarrow> 'g world
     \<Rightarrow> error + (SweepFaithfulnessRelationResults \<times> 'g world)" where
  "sweep_relation env lys bts cfg relation w =
     (case load_results_file w (name relation) (resume cfg) of
        Some relation_result \<Rightarrow> Inr (relation_result, w)
      | None \<Rightarrow>
          (case pyidx (prompt_templates relation) 0 of
             Inl e \<Rightarrow> Inl e
           | Inr tmpl \<Rightarrow>
               (case trial_loop env lys bts cfg relation tmpl (nat (n_trials cfg)) w of
                  Inl e \<Rightarrow> Inl e
                | Inr (trial_results, w1) \<Rightarrow>
                    (let relation_result =
                           \<lparr> relation_name = name relation, trials = trial_results \<rparr>
                     in case rel_summarize relation_result 1 of
                          Inl e \<Rightarrow> Inl e
                        | Inr _ \<Rightarrow>
                            Inr (relation_result,
                                 save_results_file w1 (name relation) relation_result)))))"

fun relation_loop ::
  "('g, 'r, 'o, 'v, 'w) env \<Rightarrow> int list \<Rightarrow> rat list \<Rightarrow> config \<Rightarrow> Relation list \<Rightarrow> 'g world
     \<Rightarrow> error + (SweepFaithfulnessRelationResults list \<times> 'g world)" where
  "relation_loop env lys bts cfg [] w = Inr ([], w)"
| "relation_loop env lys bts cfg (r # rs) w =
     (case sweep_relation env lys bts cfg r w of
        Inl e \<Rightarrow> Inl e
      | Inr (res, w1) \<Rightarrow>
          (case relation_loop env lys bts cfg rs w1 of
             Inl e \<Rightarrow> Inl e
           | Inr (ress, w2) \<Rightarrow> Inr (res # ress, w2)))"

text \<open>\<open>torch.linspace(0, 1, steps=21).tolist()\<close>, the default grid.\<close>

definition default_betas :: "rat list" where
  "default_betas = map (\<lambda>i. of_nat i / 20) [0..<21]"

definition sweep_faithfulness ::
  "('g, 'r, 'o, 'v, 'w) env \<Rightarrow> config \<Rightarrow> Relation list \<Rightarrow> 'g world
     \<Rightarrow> error + (SweepFaithfulnessResuts \<times> 'g world)" where
  "sweep_faithfulness env cfg dataset w =
     (let lys = (case h_layers cfg of None \<Rightarrow> determine_layers env | Some ls \<Rightarrow> ls);
          bts = (case betas cfg of None \<Rightarrow> default_betas | Some bs \<Rightarrow> bs)
      in case relation_loop env lys bts cfg dataset w of
           Inl e \<Rightarrow> Inl e
         | Inr (relation_results, w1) \<Rightarrow> Inr (\<lparr> relations = relation_results \<rparr>, w1))"

text \<open>
  What the spec says a beta's result is: the recall of the predictions made with the
  bias \<open>original * beta\<close>. It is a reference to compare \<open>beta_loop\<close> with, not part of
  the code.
\<close>

definition result_at_beta ::
  "('g, 'r, 'o, 'v, 'w) env \<Rightarrow> 'w \<Rightarrow> rat list \<Rightarrow> (string \<times> 'v) list \<Rightarrow> string list \<Rightarrow> int
     \<Rightarrow> rat \<Rightarrow> SweepFaithfulnessBetaResults" where
  "result_at_beta env wts original subj_hs test_objects k b =
     \<lparr> br_beta = b,
       br_recall = recall_metric env
         (map (\<lambda>(subj, hv). predict env wts (scale original b) subj hv k) subj_hs) test_objects \<rparr>"

text \<open>
  What the sweep reads of a split: the samples of the two relations and the new
  generator state.
\<close>

definition split_samples ::
  "('g, 'r, 'o, 'v, 'w) env \<Rightarrow> 'g \<Rightarrow> Relation \<Rightarrow> int
     \<Rightarrow> RelationSample list \<times> RelationSample list \<times> 'g" where
  "split_samples env g relation n =
     (case split env g relation n of
        ((train_relation, test_relation), g') \<Rightarrow> (samples train_relation, samples test_relation, g'))"

text \<open>
  An event mentions no prompt template other than \<open>tmpl\<close>: the precompute was called
  with it, the estimator with a relation whose only template it is.
\<close>

fun only_template :: "string \<Rightarrow> event \<Rightarrow> bool" where
  "only_template tmpl (Warning_not_enough_samples nm n k) = True"
| "only_template tmpl (Call_precompute_hs t subjects bs examples) = (t = tmpl)"
| "only_template tmpl (Call_estimator l r) = (prompt_templates r = [tmpl])"

subsection \<open>Example inputs\<close>

text \<open>Three betas with recall@1 and recall@2; the second and the third tie at recall@1.\<close>

definition ex_train :: SweepFaithfulnessTrainResults where
  "ex_train = \<lparr> tr_samples = [],
      tr_betas = [\<lparr> br_beta = 0, br_recall = [1/2, 1] \<rparr>, \<lparr> br_beta = 1/2, br_recall = [1, 1] \<rparr>,
                  \<lparr> br_beta = 1, br_recall = [1, 1] \<rparr>] \<rparr>"

text \<open>
  One trial over layers 1 and 2: layer 1 is better at recall@1, layer 2 at recall@2.
\<close>

definition ex_rel :: SweepFaithfulnessRelationResults where
  "ex_rel = \<lparr> relation_name = ''r'', trials = [\<lparr> prompt_template = ''t'', train_samples = [],
     layers = [\<lparr> lr_layer = 1, lr_result =
                   \<lparr> tr_samples = [], tr_betas = [\<lparr> br_beta = 0, br_recall = [1/2, 1/2] \<rparr>] \<rparr> \<rparr>,
               \<lparr> lr_layer = 2, lr_result =
                   \<lparr> tr_samples = [], tr_betas = [\<lparr> br_beta = 0, br_recall = [0, 1] \<rparr>] \<rparr> \<rparr>] \<rparr>] \<rparr>"

text \<open>
  A small world to run the sweep in: the generator state counts the splits and rotates
  the samples, a row is the prompt itself, the model has an embedding layer and two
  layers and tags every character with its layer, the subject ends the prompt, the
  fitted bias depends on the layer and on the number of training samples, and the
  operator predicts the subject when the bias sums to at least 1.
\<close>

definition ex_env :: "(nat, string, nat, nat \<times> char, unit) env" where
  "ex_env = \<lparr>
     determine_layers = [0, 1],
     split = (\<lambda>g r n. ((r\<lparr>samples := take (nat n) (rotate g (samples r))\<rparr>,
                         r\<lparr>samples := drop (nat n) (rotate g (samples r))\<rparr>), Suc g)),
     make_prompt = (\<lambda>tmpl subj examples. concat (map subject examples) @ tmpl @ subj),
     tokenizer = (\<lambda>prompts. map (\<lambda>p. (p, length p)) prompts),
     forward = (\<lambda>rows. map (\<lambda>l. map (\<lambda>row. map (\<lambda>c. (l, c)) row) rows) [0, 1, 2]),
     find_token_range = (\<lambda>prompt subj off.
        if subj = [] then None else Some (int off - int (length subj), int off)),
     estimator = (\<lambda>l r. ((), Some [of_int l + 1, of_nat (length (samples r))])),
     predict = (\<lambda>wts bias subj hv k. if 1 \<le> sum_list bias then [subj] else []),
     recall_metric = (\<lambda>preds objs.
        [of_nat (length (filter (\<lambda>(p, ob). ob \<in> set p) (zip preds objs))) / of_nat (length objs)]) \<rparr>"

definition ex_relation :: Relation where
  "ex_relation = \<lparr> name = ''r'', prompt_templates = [''t'', ''u''],
     samples = [\<lparr> subject = ''a'', object = ''a'' \<rparr>, \<lparr> subject = ''b'', object = ''c'' \<rparr>,
                \<lparr> subject = ''d'', object = ''d'' \<rparr>] \<rparr>"

definition ex_config :: config where
  "ex_config = \<lparr> h_layers = Some [0, 1], betas = Some [0, 1/2], n_trials = 1,
     n_train_samples = 2, recall_k = 1, batch_size = 2, resume = False \<rparr>"

definition ex_world :: "nat world" where
  "ex_world = \<lparr> rng = 0, store = Map.empty, trace = [] \<rparr>"

text \<open>What the sweep over \<open>ex_relation\<close> with \<open>ex_config\<close> computes in \<open>ex_env\<close>.\<close>

definition ex_train_samples :: "RelationSample list" where
  "ex_train_samples = [\<lparr> subject = ''a'', object = ''a'' \<rparr>, \<lparr> subject = ''b'', object = ''c'' \<rparr>]"

definition ex_trial :: SweepFaithfulnessTrialResults where
  "ex_trial = \<lparr> prompt_template = ''t'', train_samples = ex_train_samples,
     layers =
       [\<lparr> lr_layer = 0, lr_result = \<lparr> tr_samples = ex_train_samples,
            tr_betas = [\<lparr> br_beta = 0, br_recall = [0] \<rparr>, \<lparr> br_beta = 1/2, br_recall = [1] \<rparr>] \<rparr> \<rparr>,
        \<lparr> lr_layer = 1, lr_result = \<lparr> tr_samples = ex_train_samples,
            tr_betas = [\<lparr> br_beta = 0, br_recall = [0] \<rparr>, \<lparr> br_beta = 1/2, br_recall = [1] \<rparr>] \<rparr> \<rparr>] \<rparr>"

definition ex_trace :: "event list" where
  "ex_trace =
     [Call_precompute_hs ''t'' [''a'', ''b'', ''d''] 2 [\<lparr> subject = ''a'', object = ''a'' \<rparr>],
      Call_estimator 0 \<lparr> name = ''r'', prompt_templates = [''t''], samples = ex_train_samples \<rparr>,
      Call_estimator 1 \<lparr> name = ''r'', prompt_templates = [''t''], samples = ex_train_samples \<rparr>]"

text \<open>
  The world after sweeping the dataset of two relations that share the name \<open>r\<close>, the
  first without samples and the second \<open>ex_relation\<close>.
\<close>

definition ex_world_after :: "nat world" where
  "ex_world_after = \<lparr> rng = Suc 0,
     store = [''r'' \<mapsto> \<lparr> relation_name = ''r'', trials = [ex_trial] \<rparr>],
     trace = Warning_not_enough_samples ''r'' 0 2 # ex_trace \<rparr>"

text \<open>The world after sweeping the dataset that holds \<open>ex_relation\<close> alone.\<close>

definition ex_world_single :: "nat world" where
  "ex_world_single = \<lparr> rng = Suc 0,
     store = [''r'' \<mapsto> \<lparr> relation_name = ''r'', trials = [ex_trial] \<rparr>],
     trace = ex_trace \<rparr>"

section \<open>Properties\<close>

subsection \<open>\<open>max\<close> with a key\<close>

lemma pyidx_in_range: "0 \<le> i \<Longrightarrow> i < int (length xs) \<Longrightarrow> pyidx xs i = Inr (xs ! nat i)"
  by (simp add: pyidx_def)

text \<open>
  The invariant of the loop inside \<open>max\<close>: the running maximum sits at index \<open>i\<close> of the
  items seen so far, no seen key is greater and every earlier key is smaller.
\<close>

lemma max_loop_first_max:
  assumes "\<forall>y\<in>set ys. f y = Inr (g y)"
    and "i < length pre"
    and "\<forall>j<length pre. g (pre ! j) \<le> g (pre ! i)"
    and "\<forall>j<i. g (pre ! j) < g (pre ! i)"
  shows "\<exists>m<length (pre @ ys).
           max_loop f (pre ! i) (g (pre ! i)) ys = Inr ((pre @ ys) ! m)
         \<and> (\<forall>j<length (pre @ ys). g ((pre @ ys) ! j) \<le> g ((pre @ ys) ! m))
         \<and> (\<forall>j<m. g ((pre @ ys) ! j) < g ((pre @ ys) ! m))"
  using assms
proof (induction ys arbitrary: pre i)
  case Nil
  then show ?case by auto
next
  case (Cons y ys)
  have fy: "f y = Inr (g y)" and rest: "\<forall>z\<in>set ys. f z = Inr (g z)"
    using Cons.prems(1) by auto
  let ?pre = "pre @ [y]"
  show ?case
  proof (cases "g y > g (pre ! i)")
    case True
    have a: "length pre < length ?pre" by simp
    have b: "\<forall>j<length ?pre. g (?pre ! j) \<le> g (?pre ! length pre)"
    proof (intro allI impI)
      fix j assume "j < length ?pre"
      then consider "j < length pre" | "j = length pre" by fastforce
      then show "g (?pre ! j) \<le> g (?pre ! length pre)"
      proof cases
        case 1
        then have "g (pre ! j) \<le> g (pre ! i)" using Cons.prems(3) by blast
        with True 1 show ?thesis by (simp add: nth_append)
      next
        case 2
        then show ?thesis by simp
      qed
    qed
    have c: "\<forall>j<length pre. g (?pre ! j) < g (?pre ! length pre)"
    proof (intro allI impI)
      fix j assume j: "j < length pre"
      then have "g (pre ! j) \<le> g (pre ! i)" using Cons.prems(3) by blast
      with True j show "g (?pre ! j) < g (?pre ! length pre)" by (simp add: nth_append)
    qed
    from Cons.IH[OF rest a b c] True fy show ?thesis by simp
  next
    case False
    have a: "i < length ?pre" using Cons.prems(2) by simp
    have e: "?pre ! i = pre ! i" using Cons.prems(2) by (simp add: nth_append)
    have b: "\<forall>j<length ?pre. g (?pre ! j) \<le> g (?pre ! i)"
    proof (intro allI impI)
      fix j assume "j < length ?pre"
      then consider "j < length pre" | "j = length pre" by fastforce
      then show "g (?pre ! j) \<le> g (?pre ! i)"
      proof cases
        case 1
        then show ?thesis using Cons.prems(3) e by (simp add: nth_append)
      next
        case 2
        then show ?thesis using False e by simp
      qed
    qed
    have c: "\<forall>j<i. g (?pre ! j) < g (?pre ! i)"
      using Cons.prems(2,4) e by (simp add: nth_append)
    from Cons.IH[OF rest a b c] False fy e show ?thesis by simp
  qed
qed

lemma py_max_key_first_max:
  assumes "xs \<noteq> []" and "\<forall>y\<in>set xs. f y = Inr (g y)"
  shows "\<exists>m<length xs. py_max_key f xs = Inr (xs ! m)
         \<and> (\<forall>j<length xs. g (xs ! j) \<le> g (xs ! m))
         \<and> (\<forall>j<m. g (xs ! j) < g (xs ! m))"
proof -
  obtain x ys where xs: "xs = x # ys" using assms(1) by (cases xs) auto
  have "\<forall>y\<in>set ys. f y = Inr (g y)" and fx: "f x = Inr (g x)" using assms(2) xs by auto
  from max_loop_first_max[where pre = "[x]" and i = 0 and g = g, OF this(1)] fx xs
  show ?thesis by simp
qed

subsection \<open>Best beta of a training draw\<close>

text \<open>
  C3. \<open>TrainResults.best(k)\<close> is claimed to return, for every \<open>k \<ge> 1\<close> and every non-empty
  list of beta results, the result with the greatest recall@k, the first of them in list
  order on a tie. The code reads \<open>recall[k - 1]\<close> of every result, so a result whose
  recall list has fewer than \<open>k\<close> entries makes the call raise IndexError instead of
  returning: here a single result with one recall position, asked for \<open>k = 2\<close>.
\<close>

theorem best_short_recall_raises:
  "best \<lparr> tr_samples = [], tr_betas = [\<lparr> br_beta = 0, br_recall = [1] \<rparr>] \<rparr> 2 = Inl IndexError"
  by (simp add: best_def pyidx_def)

text \<open>
  C3, amended. For every \<open>k \<ge> 1\<close> and every non-empty list of beta results that each
  have at least \<open>k\<close> recall positions, \<open>best k\<close> returns the result at some index \<open>m\<close> of
  the list whose recall@k no other result exceeds, and every result before \<open>m\<close> has a
  strictly smaller recall@k: the first maximal one in list order.
\<close>

theorem best_first_max:
  assumes "1 \<le> k" and "tr_betas self \<noteq> []"
    and "\<forall>b\<in>set (tr_betas self). k \<le> int (length (br_recall b))"
  shows "\<exists>m<length (tr_betas self).
           best self k = Inr (tr_betas self ! m)
         \<and> (\<forall>j<length (tr_betas self).
               br_recall (tr_betas self ! j) ! nat (k - 1) \<le> br_recall (tr_betas self ! m) ! nat (k - 1))
         \<and> (\<forall>j<m. br_recall (tr_betas self ! j) ! nat (k - 1) < br_recall (tr_betas self ! m) ! nat (k - 1))"
proof -
  have "\<forall>b\<in>set (tr_betas self). pyidx (br_recall b) (k - 1) = Inr (br_recall b ! nat (k - 1))"
    using assms(1,3) by (auto intro!: pyidx_in_range)
  from py_max_key_first_max[OF assms(2), where g = "\<lambda>b. br_recall b ! nat (k - 1)", OF this]
  show ?thesis by (simp add: best_def)
qed

theorem best_first_max_witness:
  "list_all (\<lambda>b. 1 \<le> int (length (br_recall b))) (tr_betas ex_train)
   \<and> (\<exists>m<length (tr_betas ex_train).
           best ex_train 1 = Inr (tr_betas ex_train ! m)
         \<and> (\<forall>j<length (tr_betas ex_train).
               br_recall (tr_betas ex_train ! j) ! nat (1 - 1) \<le> br_recall (tr_betas ex_train ! m) ! nat (1 - 1))
         \<and> (\<forall>j<m. br_recall (tr_betas ex_train ! j) ! nat (1 - 1) < br_recall (tr_betas ex_train ! m) ! nat (1 - 1)))"
proof -
  have h: "\<forall>b\<in>set (tr_betas ex_train). 1 \<le> int (length (br_recall b))"
    by (simp add: ex_train_def)
  have n: "tr_betas ex_train \<noteq> []" by (simp add: ex_train_def)
  show ?thesis using best_first_max[of 1 ex_train, OF _ n h] h by (simp add: list_all_iff)
qed

text \<open>On the example the first of the two tied betas is returned.\<close>

lemma best_ex_train: "best ex_train 1 = Inr \<lparr> br_beta = 1/2, br_recall = [1, 1] \<rparr>"
  by (simp add: ex_train_def best_def pyidx_def)

subsection \<open>Best layer of a relation\<close>

text \<open>
  C1. \<open>RelationResults.best(k)\<close> is claimed to return the summary of the layer whose mean
  recall@k is maximal. The code takes \<open>k\<close> and calls \<open>self.by_layer()\<close> without it, so it
  ranks the layers by mean recall@1 whatever \<open>k\<close> is (\<open>summarize(k)\<close>, next to it, passes
  \<open>k\<close> on). On \<open>ex_rel\<close> with \<open>k = 2\<close> the mean recall@2 is 1/2 for layer 1 and 1 for layer 2,
  as \<open>by_layer 2\<close> computes, and \<open>best\<close> returns layer 1 with its recall@1 summary.
\<close>

theorem best_layer_ignores_k:
  "best_layer ex_rel 2 =
     Inr \<lparr> ls_layer = 1, ls_beta = \<lparr> mean = 0, variance = 0 \<rparr>,
           ls_recall = \<lparr> mean = 1/2, variance = 0 \<rparr> \<rparr>
   \<and> by_layer ex_rel 2 =
     Inr [(1, \<lparr> ls_layer = 1, ls_beta = \<lparr> mean = 0, variance = 0 \<rparr>,
                ls_recall = \<lparr> mean = 1/2, variance = 0 \<rparr> \<rparr>),
          (2, \<lparr> ls_layer = 2, ls_beta = \<lparr> mean = 0, variance = 0 \<rparr>,
                ls_recall = \<lparr> mean = 1, variance = 0 \<rparr> \<rparr>)]"
  by (simp add: best_layer_def by_layer_def ex_rel_def best_def pyidx_def layer_summary_def
      aggregate_def dict_get_def)

lemma best_layer_any_k: "best_layer self k = best_layer self 1"
  by (simp add: best_layer_def)

subsection \<open>The bias cells during the sweep over beta\<close>

lemmas model_defs = run_layer_def Let_def alloc_def clone_def rd_def wr_def scale_def emit_def
  summarize_def best_def pyidx_def dict_get_def run_trial_def precompute_hs_def
  batched_hidden_states_def py_range0_def slice_def torch_cat1_def sweep_relation_def
  load_results_file_def save_results_file_def rel_summarize_def by_layer_def layer_summary_def
  aggregate_def sweep_faithfulness_def default_betas_def result_at_beta_def

lemmas ex_defs = ex_env_def ex_relation_def ex_config_def ex_world_def ex_train_samples_def
  ex_trial_def ex_trace_def ex_world_after_def ex_world_single_def

lemma rd_wr_same: "a < length h \<Longrightarrow> rd (wr h a t) a = t"
  by (simp add: rd_def wr_def)

lemma rd_wr_other: "a \<noteq> b \<Longrightarrow> rd (wr h a t) b = rd h b"
  by (simp add: rd_def wr_def)

lemma length_wr: "length (wr h a t) = length h"
  by (simp add: wr_def)

text \<open>
  With the operator's bias and the clone in two different cells, the loop leaves the
  clone as it was, leaves in the operator's bias the last rescaled value, and computes
  every result from the clone's contents.
\<close>

lemma beta_loop_frame:
  assumes "op \<noteq> bias" and "op < length h" and "bias < length h"
  shows "length (snd (beta_loop env wts op bias subj_hs objs k bts h)) = length h
       \<and> rd (snd (beta_loop env wts op bias subj_hs objs k bts h)) bias = rd h bias
       \<and> rd (snd (beta_loop env wts op bias subj_hs objs k bts h)) op =
           (if bts = [] then rd h op else scale (rd h bias) (last bts))
       \<and> fst (beta_loop env wts op bias subj_hs objs k bts h) =
           map (result_at_beta env wts (rd h bias) subj_hs objs k) bts"
  using assms
proof (induction bts arbitrary: h)
  case Nil
  then show ?case by simp
next
  case (Cons b bs)
  let ?h1 = "wr h op (scale (rd h bias) b)"
  have l: "op < length ?h1" "bias < length ?h1" using Cons.prems by (simp_all add: length_wr)
  have keep: "rd ?h1 bias = rd h bias" using Cons.prems(1) by (simp add: rd_wr_other)
  have now: "rd ?h1 op = scale (rd h bias) b" using Cons.prems(2) by (simp add: rd_wr_same)
  obtain rest h2 where r: "beta_loop env wts op bias subj_hs objs k bs ?h1 = (rest, h2)"
    by (cases "beta_loop env wts op bias subj_hs objs k bs ?h1")
  from Cons.IH[OF Cons.prems(1) l] keep now r
  show ?case
    by (simp add: Let_def length_wr result_at_beta_def)
qed

text \<open>What a successful layer iteration has done.\<close>

lemma run_layer_Inr:
  assumes "run_layer env bts k relation tmpl train test hs_by_subj l w = Inr ((r, m), w')"
  shows "\<exists>wts b0 ths.
           estimator env l (relation\<lparr>prompt_templates := [tmpl], samples := train\<rparr>) = (wts, Some b0)
         \<and> test_hs_of hs_by_subj l test = Inr ths
         \<and> r = \<lparr> lr_layer = l, lr_result = \<lparr> tr_samples = train,
               tr_betas = map (result_at_beta env wts b0 (zip (map subject test) ths) (map object test) k) bts \<rparr> \<rparr>
         \<and> bias_at m \<noteq> op_bias_at m
         \<and> rd (cells m) (bias_at m) = b0
         \<and> rd (cells m) (op_bias_at m) = (if bts = [] then b0 else scale b0 (last bts))
         \<and> w' = emit (Call_estimator l (relation\<lparr>prompt_templates := [tmpl], samples := train\<rparr>)) w"
proof -
  let ?fit = "relation\<lparr>prompt_templates := [tmpl], samples := train\<rparr>"
  obtain wts fb where e: "estimator env l ?fit = (wts, fb)" by (cases "estimator env l ?fit")
  from assms e obtain b0 where fb: "fb = Some b0"
    by (cases fb) (simp_all add: run_layer_def Let_def)
  from assms e fb obtain ths where t: "test_hs_of hs_by_subj l test = Inr ths"
    by (cases "test_hs_of hs_by_subj l test") (simp_all add: run_layer_def Let_def alloc_def clone_def)
  let ?sh = "zip (map subject test) ths"
  obtain rs h2 where bl: "beta_loop env wts 0 (Suc 0) ?sh (map object test) k bts [b0, b0] = (rs, h2)"
    by (cases "beta_loop env wts 0 (Suc 0) ?sh (map object test) k bts [b0, b0]")
  have "(0::nat) \<noteq> Suc 0" "0 < length [b0, b0]" "Suc 0 < length [b0, b0]" by simp_all
  from beta_loop_frame[OF this, of env wts ?sh "map object test" k bts] bl
  have F: "rd h2 (Suc 0) = b0"
    "rd h2 0 = (if bts = [] then b0 else scale b0 (last bts))"
    "rs = map (result_at_beta env wts b0 ?sh (map object test) k) bts"
    by (simp_all add: rd_def)
  from assms e fb t bl
  have "r = \<lparr> lr_layer = l, lr_result = \<lparr> tr_samples = train, tr_betas = rs \<rparr> \<rparr>"
    and "m = \<lparr> op_bias_at = 0, bias_at = Suc 0, cells = h2 \<rparr>"
    and "w' = emit (Call_estimator l ?fit) w"
    by (simp_all add: run_layer_def Let_def alloc_def clone_def rd_def split: sum.splits)
  with e fb t F show ?thesis by simp
qed




subsection \<open>Order of the results\<close>

text \<open>A successful loop over the layers has one result per layer, in the order given.\<close>

lemma layer_loop_Inr:
  assumes "layer_loop env bts k relation tmpl train test hs_by_subj lys w = Inr (rs, w')"
  shows "map lr_layer rs = lys
       \<and> (\<forall>r\<in>set rs. \<exists>wts b0 ths.
             estimator env (lr_layer r) (relation\<lparr>prompt_templates := [tmpl], samples := train\<rparr>)
               = (wts, Some b0)
           \<and> test_hs_of hs_by_subj (lr_layer r) test = Inr ths
           \<and> lr_result r = \<lparr> tr_samples = train,
               tr_betas = map (result_at_beta env wts b0 (zip (map subject test) ths) (map object test) k) bts \<rparr>)"
  using assms
proof (induction lys arbitrary: rs w)
  case Nil
  then show ?case by simp
next
  case (Cons l ls)
  from Cons.prems obtain r m w1 where
    one: "run_layer env bts k relation tmpl train test hs_by_subj l w = Inr ((r, m), w1)"
    by (auto split: sum.splits)
  with Cons.prems obtain rs' where
    rest: "layer_loop env bts k relation tmpl train test hs_by_subj ls w1 = Inr (rs', w')"
    and rs: "rs = r # rs'"
    by (auto split: sum.splits)
  from run_layer_Inr[OF one] obtain wts b0 ths where
    r: "estimator env l (relation\<lparr>prompt_templates := [tmpl], samples := train\<rparr>) = (wts, Some b0)"
       "test_hs_of hs_by_subj l test = Inr ths"
       "r = \<lparr> lr_layer = l, lr_result = \<lparr> tr_samples = train,
               tr_betas = map (result_at_beta env wts b0 (zip (map subject test) ths) (map object test) k) bts \<rparr> \<rparr>"
    by blast
  from Cons.IH[OF rest] rs r show ?case by auto
qed

text \<open>
  C4. The sweep over beta yields exactly one result per beta in the order of the input
  list, and the result of a beta is the recall of the predictions made with the bias
  \<open>original * beta\<close>, where \<open>original\<close> is what the clone holds (the bias as fitted), not
  what an earlier beta left behind; this holds for every beta list, given that the clone
  and the operator's bias are two cells of the heap, as they are in \<open>run_layer\<close>. And a
  loop over the layers that returns gives the layer results in the order of the input
  layers, each with the betas in input order and computed from the bias the estimator
  fitted for that layer.
\<close>

theorem beta_and_layer_order:
  "(op \<noteq> bias \<and> op < length h \<and> bias < length h \<longrightarrow>
      fst (beta_loop env wts op bias subj_hs objs k bts h) =
        map (result_at_beta env wts (rd h bias) subj_hs objs k) bts
    \<and> map br_beta (fst (beta_loop env wts op bias subj_hs objs k bts h)) = bts)
 \<and> (layer_loop env bts k relation tmpl train test hs_by_subj lys w = Inr (rs, w') \<longrightarrow>
      map lr_layer rs = lys
    \<and> (\<forall>r\<in>set rs. \<exists>wts b0 ths.
          estimator env (lr_layer r) (relation\<lparr>prompt_templates := [tmpl], samples := train\<rparr>)
            = (wts, Some b0)
        \<and> test_hs_of hs_by_subj (lr_layer r) test = Inr ths
        \<and> map br_beta (tr_betas (lr_result r)) = bts
        \<and> tr_betas (lr_result r) =
            map (result_at_beta env wts b0 (zip (map subject test) ths) (map object test) k) bts))"
proof (intro conjI impI)
  assume a: "op \<noteq> bias \<and> op < length h \<and> bias < length h"
  then show f: "fst (beta_loop env wts op bias subj_hs objs k bts h) =
        map (result_at_beta env wts (rd h bias) subj_hs objs k) bts"
    using beta_loop_frame[of op bias h env wts subj_hs objs k bts] by simp
  show "map br_beta (fst (beta_loop env wts op bias subj_hs objs k bts h)) = bts"
    unfolding f by (simp add: result_at_beta_def comp_def)
next
  assume a: "layer_loop env bts k relation tmpl train test hs_by_subj lys w = Inr (rs, w')"
  from layer_loop_Inr[OF a] show "map lr_layer rs = lys" by simp
  show "\<forall>r\<in>set rs. \<exists>wts b0 ths.
          estimator env (lr_layer r) (relation\<lparr>prompt_templates := [tmpl], samples := train\<rparr>)
            = (wts, Some b0)
        \<and> test_hs_of hs_by_subj (lr_layer r) test = Inr ths
        \<and> map br_beta (tr_betas (lr_result r)) = bts
        \<and> tr_betas (lr_result r) =
            map (result_at_beta env wts b0 (zip (map subject test) ths) (map object test) k) bts"
  proof
    fix r assume "r \<in> set rs"
    with layer_loop_Inr[OF a] obtain wts b0 ths where
      r: "estimator env (lr_layer r) (relation\<lparr>prompt_templates := [tmpl], samples := train\<rparr>)
            = (wts, Some b0)"
         "test_hs_of hs_by_subj (lr_layer r) test = Inr ths"
         "lr_result r = \<lparr> tr_samples = train,
               tr_betas = map (result_at_beta env wts b0 (zip (map subject test) ths) (map object test) k) bts \<rparr>"
      by blast
    have "map br_beta (tr_betas (lr_result r)) = bts"
      unfolding r(3) by (simp add: result_at_beta_def comp_def)
    with r show "\<exists>wts b0 ths.
          estimator env (lr_layer r) (relation\<lparr>prompt_templates := [tmpl], samples := train\<rparr>)
            = (wts, Some b0)
        \<and> test_hs_of hs_by_subj (lr_layer r) test = Inr ths
        \<and> map br_beta (tr_betas (lr_result r)) = bts
        \<and> tr_betas (lr_result r) =
            map (result_at_beta env wts b0 (zip (map subject test) ths) (map object test) k) bts"
      by simp
  qed
qed

theorem beta_and_layer_order_witness:
  "fst (beta_loop ex_env () 0 1 [(''d'', (1, CHR ''d''))] [''d''] 1 [0, 1/2, 1] [[1, 2], [1, 2]]) =
     map (result_at_beta ex_env () [1, 2] [(''d'', (1, CHR ''d''))] [''d''] 1) [0, 1/2, 1]
   \<and> map br_beta
        (fst (beta_loop ex_env () 0 1 [(''d'', (1, CHR ''d''))] [''d''] 1 [0, 1/2, 1] [[1, 2], [1, 2]])) =
      [0, 1/2, 1]
   \<and> map lr_layer
       [\<lparr> lr_layer = 0, lr_result = \<lparr> tr_samples =
            [\<lparr> subject = ''a'', object = ''a'' \<rparr>, \<lparr> subject = ''b'', object = ''c'' \<rparr>],
            tr_betas = [\<lparr> br_beta = 0, br_recall = [0] \<rparr>, \<lparr> br_beta = 1/2, br_recall = [1] \<rparr>] \<rparr> \<rparr>,
        \<lparr> lr_layer = 1, lr_result = \<lparr> tr_samples =
            [\<lparr> subject = ''a'', object = ''a'' \<rparr>, \<lparr> subject = ''b'', object = ''c'' \<rparr>],
            tr_betas = [\<lparr> br_beta = 0, br_recall = [0] \<rparr>, \<lparr> br_beta = 1/2, br_recall = [1] \<rparr>] \<rparr> \<rparr>]
      = [0, 1]"
proof -
  let ?train = "[\<lparr> subject = ''a'', object = ''a'' \<rparr>, \<lparr> subject = ''b'', object = ''c'' \<rparr>]"
  let ?rs = "[\<lparr> lr_layer = 0, lr_result = \<lparr> tr_samples = ?train,
            tr_betas = [\<lparr> br_beta = 0, br_recall = [0] \<rparr>, \<lparr> br_beta = 1/2, br_recall = [1] \<rparr>] \<rparr> \<rparr>,
        \<lparr> lr_layer = 1, lr_result = \<lparr> tr_samples = ?train,
            tr_betas = [\<lparr> br_beta = 0, br_recall = [0] \<rparr>, \<lparr> br_beta = 1/2, br_recall = [1] \<rparr>] \<rparr> \<rparr>]"
  let ?fit = "ex_relation\<lparr>prompt_templates := [''t''], samples := ?train\<rparr>"
  have run: "layer_loop ex_env [0, 1/2] 1 ex_relation ''t'' ?train
       [\<lparr> subject = ''d'', object = ''d'' \<rparr>] [(''d'', [(1, CHR ''d''), (2, CHR ''d'')])] [0, 1] ex_world
     = Inr (?rs, emit (Call_estimator 1 ?fit) (emit (Call_estimator 0 ?fit) ex_world))"
    by (simp add: model_defs ex_defs)
  have cells: "(0::nat) \<noteq> 1 \<and> 0 < length [[1, 2], [1, 2::rat]] \<and> 1 < length [[1, 2], [1, 2::rat]]"
    by simp
  have orig: "rd [[1, 2], [1, 2]] 1 = [1, 2]" by (simp add: rd_def)
  have A: "fst (beta_loop ex_env () 0 1 [(''d'', (1, CHR ''d''))] [''d''] 1 [0, 1/2, 1] [[1, 2], [1, 2]]) =
     map (result_at_beta ex_env () [1, 2] [(''d'', (1, CHR ''d''))] [''d''] 1) [0, 1/2, 1]
   \<and> map br_beta
        (fst (beta_loop ex_env () 0 1 [(''d'', (1, CHR ''d''))] [''d''] 1 [0, 1/2, 1] [[1, 2], [1, 2]])) =
      [0, 1/2, 1]"
    using beta_and_layer_order[where op = 0 and bias = 1 and h = "[[1, 2], [1, 2]]" and env = ex_env
      and wts = "()" and subj_hs = "[(''d'', (1, CHR ''d''))]" and objs = "[''d'']" and k = 1
      and bts = "[0, 1/2, 1]", THEN conjunct1, rule_format, OF cells]
    unfolding orig .
  have B: "map lr_layer ?rs = [0, 1]"
    using beta_and_layer_order[THEN conjunct2, rule_format, OF run] by blast
  from A B show ?thesis by blast
qed

subsection \<open>Trials\<close>

lemma run_trial_skip:
  assumes "int (length (samples relation)) \<le> n_train_samples cfg"
  shows "run_trial env lys bts cfg relation tmpl w =
     Inr (None, emit (Warning_not_enough_samples (name relation) (length (samples relation))
                        (n_train_samples cfg)) w)"
  using assms by (simp add: run_trial_def)

text \<open>Skipping every trial: by induction on the number of trials.\<close>

lemma trial_loop_all_skipped:
  assumes "int (length (samples relation)) \<le> n_train_samples cfg"
  shows "trial_loop env lys bts cfg relation tmpl n w =
     Inr ([], w\<lparr>trace := trace w @ replicate n
                 (Warning_not_enough_samples (name relation) (length (samples relation))
                    (n_train_samples cfg))\<rparr>)"
proof (induction n arbitrary: w)
  case 0
  show ?case by simp
next
  case (Suc n)
  show ?case
    by (simp add: run_trial_skip[OF assms] Suc.IH emit_def replicate_app_Cons_same)
qed

text \<open>
  C5. For a relation with at most \<open>n_train_samples\<close> samples, the loop over any number
  \<open>n\<close> of trials returns normally (no exception), logs the warning once per trial, and
  its list of trial results is empty: a skipped trial leaves no entry, not an empty
  one. Nothing else happens: the generator state and the store are untouched, and
  neither the precompute nor the estimator is called.
\<close>

theorem trial_loop_skips:
  assumes "int (length (samples relation)) \<le> n_train_samples cfg"
  shows "trial_loop env lys bts cfg relation tmpl n w =
     Inr ([], w\<lparr>trace := trace w @ replicate n
                 (Warning_not_enough_samples (name relation) (length (samples relation))
                    (n_train_samples cfg))\<rparr>)"
  by (rule trial_loop_all_skipped[OF assms])

theorem trial_loop_skips_witness:
  "trial_loop ex_env [0, 1] [0, 1/2] (ex_config\<lparr>n_train_samples := 3\<rparr>) ex_relation ''t'' 2 ex_world =
     Inr ([], ex_world\<lparr>trace := trace ex_world @ replicate 2
                 (Warning_not_enough_samples (name ex_relation) (length (samples ex_relation))
                    (n_train_samples (ex_config\<lparr>n_train_samples := 3\<rparr>)))\<rparr>)"
proof -
  have "int (length (samples ex_relation)) \<le> n_train_samples (ex_config\<lparr>n_train_samples := 3\<rparr>)"
    by (simp add: ex_relation_def ex_config_def)
  from trial_loop_skips[OF this] show ?thesis .
qed

text \<open>The loop over the layers only adds its estimator calls to the trace.\<close>

lemma layer_loop_world:
  assumes "layer_loop env bts k relation tmpl train test hs_by_subj lys w = Inr (rs, w')"
  shows "w' = w\<lparr>trace := trace w @
           map (\<lambda>l. Call_estimator l (relation\<lparr>prompt_templates := [tmpl], samples := train\<rparr>)) lys\<rparr>"
  using assms
proof (induction lys arbitrary: rs w)
  case Nil
  then show ?case by simp
next
  case (Cons l ls)
  from Cons.prems obtain r m w1 where
    one: "run_layer env bts k relation tmpl train test hs_by_subj l w = Inr ((r, m), w1)"
    by (auto split: sum.splits)
  with Cons.prems obtain rs' where
    rest: "layer_loop env bts k relation tmpl train test hs_by_subj ls w1 = Inr (rs', w')"
    by (auto split: sum.splits)
  from run_layer_Inr[OF one]
  have "w1 = emit (Call_estimator l (relation\<lparr>prompt_templates := [tmpl], samples := train\<rparr>)) w"
    by blast
  with Cons.IH[OF rest] show ?case by (simp add: emit_def)
qed

text \<open>What a trial that was not skipped has done.\<close>

lemma run_trial_Some:
  assumes "run_trial env lys bts cfg relation tmpl w = Inr (Some t, w')"
    and "split env (rng w) relation (n_train_samples cfg) = ((train_relation, test_relation), g)"
  shows "\<not> int (length (samples relation)) \<le> n_train_samples cfg"
    and "\<exists>hs. precompute_hs env tmpl (map subject (samples relation)) (butlast (samples train_relation))
               (batch_size cfg) = Inr hs
            \<and> layer_loop env bts (recall_k cfg) relation tmpl (samples train_relation)
                 (samples test_relation) hs lys
                 (emit (Call_precompute_hs tmpl (map subject (samples relation)) (batch_size cfg)
                          (butlast (samples train_relation))) (w\<lparr>rng := g\<rparr>)) = Inr (layers t, w')"
    and "prompt_template t = tmpl" and "train_samples t = samples train_relation"
proof -
  show n: "\<not> int (length (samples relation)) \<le> n_train_samples cfg"
    using assms(1) by (auto simp add: run_trial_def)
  let ?pre = "precompute_hs env tmpl (map subject (samples relation)) (butlast (samples train_relation))
               (batch_size cfg)"
  from assms n obtain hs where hs: "?pre = Inr hs"
    by (cases ?pre) (simp_all add: run_trial_def Let_def)
  let ?w1 = "emit (Call_precompute_hs tmpl (map subject (samples relation)) (batch_size cfg)
                          (butlast (samples train_relation))) (w\<lparr>rng := g\<rparr>)"
  let ?ll = "layer_loop env bts (recall_k cfg) relation tmpl (samples train_relation)
                 (samples test_relation) hs lys ?w1"
  from assms n hs obtain rs w2 where ll: "?ll = Inr (rs, w2)"
    by (cases ?ll) (auto simp add: run_trial_def Let_def)
  from assms n hs ll have t: "t = \<lparr> prompt_template = tmpl, train_samples = samples train_relation,
                                 layers = rs \<rparr>" and w: "w' = w2"
    by (simp_all add: run_trial_def Let_def)
  from t show "prompt_template t = tmpl" "train_samples t = samples train_relation" by simp_all
  from hs ll t w show "\<exists>hs. ?pre = Inr hs
            \<and> layer_loop env bts (recall_k cfg) relation tmpl (samples train_relation)
                 (samples test_relation) hs lys ?w1 = Inr (layers t, w')"
    by simp
qed



subsection \<open>Relations and the checkpoint store\<close>

lemma pyidx_first: "pyidx xs 0 = (case xs of [] \<Rightarrow> Inl IndexError | x # _ \<Rightarrow> Inr x)"
  by (cases xs) (simp_all add: pyidx_def)

lemma run_trial_store:
  assumes "run_trial env lys bts cfg relation tmpl w = Inr (r, w')"
  shows "store w' = store w"
proof (cases r)
  case None
  with assms show ?thesis
    by (auto simp add: run_trial_def emit_def Let_def split: if_splits prod.splits sum.splits)
next
  case (Some t)
  obtain a b g where sp: "split env (rng w) relation (n_train_samples cfg) = ((a, b), g)"
    by (metis surj_pair)
  from run_trial_Some(2)[OF assms[unfolded Some] sp] obtain hs where
    "layer_loop env bts (recall_k cfg) relation tmpl (samples a) (samples b) hs lys
       (emit (Call_precompute_hs tmpl (map subject (samples relation)) (batch_size cfg)
                (butlast (samples a))) (w\<lparr>rng := g\<rparr>)) = Inr (layers t, w')"
    by blast
  from layer_loop_world[OF this] show ?thesis by (simp add: emit_def)
qed

lemma trial_loop_store:
  assumes "trial_loop env lys bts cfg relation tmpl n w = Inr (rs, w')"
  shows "store w' = store w"
  using assms
proof (induction n arbitrary: rs w)
  case 0
  then show ?case by simp
next
  case (Suc n)
  from Suc.prems obtain r w1 where
    one: "run_trial env lys bts cfg relation tmpl w = Inr (r, w1)"
    by (auto split: sum.splits)
  with Suc.prems obtain rs' where
    rest: "trial_loop env lys bts cfg relation tmpl n w1 = Inr (rs', w')"
    by (auto split: sum.splits)
  from Suc.IH[OF rest] run_trial_store[OF one] show ?case by simp
qed

lemma sweep_relation_loaded:
  assumes "resume cfg" and "store w (name relation) = Some res"
  shows "sweep_relation env lys bts cfg relation w = Inr (res, w)"
  using assms by (simp add: sweep_relation_def load_results_file_def)

lemma sweep_relation_computed:
  assumes "load_results_file w (name relation) (resume cfg) = None"
    and "sweep_relation env lys bts cfg relation w = Inr (res, w')"
  shows "\<exists>tmpl rest trs w1.
           prompt_templates relation = tmpl # rest
         \<and> trial_loop env lys bts cfg relation tmpl (nat (n_trials cfg)) w = Inr (trs, w1)
         \<and> res = \<lparr> relation_name = name relation, trials = trs \<rparr>
         \<and> w' = save_results_file w1 (name relation) res"
proof -
  from assms obtain tmpl rest where t: "prompt_templates relation = tmpl # rest"
    by (cases "prompt_templates relation") (simp_all add: sweep_relation_def pyidx_first)
  let ?tl = "trial_loop env lys bts cfg relation tmpl (nat (n_trials cfg)) w"
  from assms t obtain trs w1 where tl: "?tl = Inr (trs, w1)"
    by (cases ?tl) (auto simp add: sweep_relation_def pyidx_first)
  from assms t tl have "res = \<lparr> relation_name = name relation, trials = trs \<rparr>"
    and "w' = save_results_file w1 (name relation) \<lparr> relation_name = name relation, trials = trs \<rparr>"
    by (auto simp add: sweep_relation_def pyidx_first Let_def split: sum.splits)
  with t tl show ?thesis by simp
qed

lemma sweep_relation_store:
  assumes "sweep_relation env lys bts cfg relation w = Inr (res, w')"
  shows "store w' (name relation) = Some res"
    and "nm \<noteq> name relation \<Longrightarrow> store w' nm = store w nm"
    and "resume cfg \<Longrightarrow> store w nm = Some x \<Longrightarrow> store w' nm = Some x"
proof -
  show "store w' (name relation) = Some res"
  proof (cases "load_results_file w (name relation) (resume cfg)")
    case None
    from sweep_relation_computed[OF None assms] show ?thesis
      by (auto simp add: save_results_file_def)
  next
    case (Some r)
    with assms show ?thesis
      by (auto simp add: sweep_relation_def load_results_file_def split: if_splits)
  qed
  show "store w' nm = store w nm" if "nm \<noteq> name relation"
  proof (cases "load_results_file w (name relation) (resume cfg)")
    case None
    from sweep_relation_computed[OF None assms] obtain tmpl trs w1 where
      "trial_loop env lys bts cfg relation tmpl (nat (n_trials cfg)) w = Inr (trs, w1)"
      "w' = save_results_file w1 (name relation) res" by blast
    with trial_loop_store[OF this(1)] that show ?thesis by (simp add: save_results_file_def)
  next
    case (Some r)
    with assms show ?thesis by (simp add: sweep_relation_def)
  qed
  show "store w' nm = Some x" if "resume cfg" "store w nm = Some x"
  proof (cases "nm = name relation")
    case True
    with that assms show ?thesis by (simp add: sweep_relation_loaded)
  next
    case False
    with \<open>nm \<noteq> name relation \<Longrightarrow> store w' nm = store w nm\<close> that show ?thesis by simp
  qed
qed

lemma relation_loop_store:
  assumes "relation_loop env lys bts cfg rs w = Inr (ress, w')"
  shows "length ress = length rs"
    and "nm \<notin> set (map name rs) \<Longrightarrow> store w' nm = store w nm"
    and "resume cfg \<Longrightarrow> store w nm = Some x \<Longrightarrow> store w' nm = Some x"
  using assms
proof (induction rs arbitrary: ress w)
  case Nil
  { case 1 then show ?case by simp }
  { case 2 then show ?case by simp }
  { case 3 then show ?case by simp }
next
  case (Cons r rs)
  {
    case 1
    then obtain res w1 ress' where
      one: "sweep_relation env lys bts cfg r w = Inr (res, w1)" and
      rest: "relation_loop env lys bts cfg rs w1 = Inr (ress', w')" and
      eq: "ress = res # ress'"
      by (auto split: sum.splits)
    from Cons.IH(1)[OF rest] eq show ?case by simp
  }
  {
    case 2
    then obtain res w1 ress' where
      one: "sweep_relation env lys bts cfg r w = Inr (res, w1)" and
      rest: "relation_loop env lys bts cfg rs w1 = Inr (ress', w')"
      by (auto split: sum.splits)
    from 2(1) have "nm \<noteq> name r" "nm \<notin> set (map name rs)" by auto
    from Cons.IH(2)[OF this(2) rest] sweep_relation_store(2)[OF one this(1)] show ?case by simp
  }
  {
    case 3
    then obtain res w1 ress' where
      one: "sweep_relation env lys bts cfg r w = Inr (res, w1)" and
      rest: "relation_loop env lys bts cfg rs w1 = Inr (ress', w')"
      by (auto split: sum.splits)
    from Cons.IH(3)[OF 3(1) sweep_relation_store(3)[OF one 3(1) 3(2)] rest] show ?case .
  }
qed

lemma relation_loop_saved:
  assumes "relation_loop env lys bts cfg rs w = Inr (ress, w')"
    and "resume cfg \<or> distinct (map name rs)"
  shows "\<forall>i<length rs. store w' (name (rs ! i)) = Some (ress ! i)"
  using assms
proof (induction rs arbitrary: ress w)
  case Nil
  then show ?case by simp
next
  case (Cons r rs)
  from Cons.prems(1) obtain res w1 ress' where
    one: "sweep_relation env lys bts cfg r w = Inr (res, w1)" and
    rest: "relation_loop env lys bts cfg rs w1 = Inr (ress', w')" and
    eq: "ress = res # ress'"
    by (auto split: sum.splits)
  from Cons.prems(2) have d: "resume cfg \<or> distinct (map name rs)" by auto
  have first: "store w' (name r) = Some res"
  proof (cases "resume cfg")
    case True
    from relation_loop_store(3)[OF rest True sweep_relation_store(1)[OF one]] show ?thesis .
  next
    case False
    with Cons.prems(2) have "name r \<notin> set (map name rs)" by auto
    from relation_loop_store(2)[OF rest this] sweep_relation_store(1)[OF one] show ?thesis by simp
  qed
  show ?case
  proof (intro allI impI)
    fix i assume "i < length (r # rs)"
    then show "store w' (name ((r # rs) ! i)) = Some (ress ! i)"
      using first Cons.IH[OF rest d] eq by (cases i) auto
  qed
qed

lemma relation_loop_reload:
  assumes "length ress = length rs"
    and "\<forall>i<length rs. store w (name (rs ! i)) = Some (ress ! i)"
    and "resume cfg"
  shows "relation_loop env lys bts cfg rs w = Inr (ress, w)"
  using assms
proof (induction rs arbitrary: ress)
  case Nil
  then show ?case by simp
next
  case (Cons r rs)
  then obtain res ress' where eq: "ress = res # ress'" by (cases ress) auto
  from Cons.prems(2) eq have "store w (name r) = Some res" by auto
  from sweep_relation_loaded[OF Cons.prems(3) this]
  have one: "sweep_relation env lys bts cfg r w = Inr (res, w)" .
  have "relation_loop env lys bts cfg rs w = Inr (ress', w)"
  proof (rule Cons.IH)
    show "length ress' = length rs" using Cons.prems(1) eq by simp
    show "\<forall>i<length rs. store w (name (rs ! i)) = Some (ress' ! i)"
      using Cons.prems(2) eq by fastforce
    show "resume cfg" by (rule Cons.prems(3))
  qed
  with one eq show ?case by simp
qed


subsection \<open>The prompt template\<close>

lemma run_layer_templates:
  "run_layer env bts k (relation\<lparr>prompt_templates := ts\<rparr>) tmpl train test hs l w =
   run_layer env bts k relation tmpl train test hs l w"
  by (simp add: run_layer_def)

lemma layer_loop_templates:
  "layer_loop env bts k (relation\<lparr>prompt_templates := ts\<rparr>) tmpl train test hs lys w =
   layer_loop env bts k relation tmpl train test hs lys w"
  by (induction lys arbitrary: w) (simp_all add: run_layer_templates split: sum.splits prod.splits)

lemma run_trial_templates:
  assumes "split_samples env (rng w) (relation\<lparr>prompt_templates := ts\<rparr>) (n_train_samples cfg) =
           split_samples env (rng w) relation (n_train_samples cfg)"
  shows "run_trial env lys bts cfg (relation\<lparr>prompt_templates := ts\<rparr>) tmpl w =
         run_trial env lys bts cfg relation tmpl w"
proof -
  obtain a b g where s1: "split env (rng w) relation (n_train_samples cfg) = ((a, b), g)"
    by (metis surj_pair)
  obtain a' b' g' where s2: "split env (rng w) (relation\<lparr>prompt_templates := ts\<rparr>)
      (n_train_samples cfg) = ((a', b'), g')"
    by (metis surj_pair)
  from assms s1 s2 have "samples a' = samples a" "samples b' = samples b" "g' = g"
    by (simp_all add: split_samples_def)
  with s1 s2 show ?thesis
    by (simp add: run_trial_def layer_loop_templates Let_def split: sum.splits prod.splits)
qed

lemma trial_loop_templates:
  assumes "\<forall>g. split_samples env g (relation\<lparr>prompt_templates := ts\<rparr>) (n_train_samples cfg) =
               split_samples env g relation (n_train_samples cfg)"
  shows "trial_loop env lys bts cfg (relation\<lparr>prompt_templates := ts\<rparr>) tmpl n w =
         trial_loop env lys bts cfg relation tmpl n w"
proof (induction n arbitrary: w)
  case 0
  show ?case by simp
next
  case (Suc n)
  have "run_trial env lys bts cfg (relation\<lparr>prompt_templates := ts\<rparr>) tmpl w =
        run_trial env lys bts cfg relation tmpl w"
    by (rule run_trial_templates) (simp add: assms)
  then show ?case by (simp add: Suc.IH split: sum.splits prod.splits)
qed

lemma run_trial_trace:
  assumes "run_trial env lys bts cfg relation tmpl w = Inr (r, w')"
  shows "(\<forall>t. r = Some t \<longrightarrow> prompt_template t = tmpl)
       \<and> (\<exists>new. trace w' = trace w @ new \<and> list_all (only_template tmpl) new)"
proof (cases r)
  case None
  with assms have "w' = emit (Warning_not_enough_samples (name relation) (length (samples relation))
                        (n_train_samples cfg)) w"
    by (auto simp add: run_trial_def Let_def split: if_splits prod.splits sum.splits)
  with None show ?thesis by (simp add: emit_def)
next
  case (Some t)
  obtain a b g where sp: "split env (rng w) relation (n_train_samples cfg) = ((a, b), g)"
    by (metis surj_pair)
  from run_trial_Some[OF assms[unfolded Some] sp] obtain hs where
    ll: "layer_loop env bts (recall_k cfg) relation tmpl (samples a) (samples b) hs lys
       (emit (Call_precompute_hs tmpl (map subject (samples relation)) (batch_size cfg)
                (butlast (samples a))) (w\<lparr>rng := g\<rparr>)) = Inr (layers t, w')"
    and pt: "prompt_template t = tmpl"
    by blast
  from layer_loop_world[OF ll]
  have "trace w' = trace w @
     (Call_precompute_hs tmpl (map subject (samples relation)) (batch_size cfg) (butlast (samples a))
      # map (\<lambda>l. Call_estimator l (relation\<lparr>prompt_templates := [tmpl], samples := samples a\<rparr>)) lys)"
    by (simp add: emit_def)
  moreover have "list_all (only_template tmpl)
     (Call_precompute_hs tmpl (map subject (samples relation)) (batch_size cfg) (butlast (samples a))
      # map (\<lambda>l. Call_estimator l (relation\<lparr>prompt_templates := [tmpl], samples := samples a\<rparr>)) lys)"
    by (simp add: list_all_iff)
  ultimately show ?thesis using Some pt by blast
qed

lemma trial_loop_trace:
  assumes "trial_loop env lys bts cfg relation tmpl n w = Inr (rs, w')"
  shows "list_all (\<lambda>t. prompt_template t = tmpl) rs
       \<and> (\<exists>new. trace w' = trace w @ new \<and> list_all (only_template tmpl) new)"
  using assms
proof (induction n arbitrary: rs w)
  case 0
  then show ?case by simp
next
  case (Suc n)
  from Suc.prems obtain r w1 where
    one: "run_trial env lys bts cfg relation tmpl w = Inr (r, w1)"
    by (auto split: sum.splits)
  with Suc.prems obtain rs' where
    rest: "trial_loop env lys bts cfg relation tmpl n w1 = Inr (rs', w')"
    and rs: "rs = (case r of None \<Rightarrow> rs' | Some t \<Rightarrow> t # rs')"
    by (auto split: sum.splits)
  from run_trial_trace[OF one] obtain new1 where
    a: "\<forall>t. r = Some t \<longrightarrow> prompt_template t = tmpl"
       "trace w1 = trace w @ new1" "list_all (only_template tmpl) new1" by blast
  from Suc.IH[OF rest] obtain new2 where
    b: "list_all (\<lambda>t. prompt_template t = tmpl) rs'"
       "trace w' = trace w1 @ new2" "list_all (only_template tmpl) new2" by blast
  from a b have "trace w' = trace w @ (new1 @ new2)" "list_all (only_template tmpl) (new1 @ new2)"
    by simp_all
  moreover from a(1) b(1) rs have "list_all (\<lambda>t. prompt_template t = tmpl) rs"
    by (cases r) simp_all
  ultimately show ?case by blast
qed

subsection \<open>Resuming from the checkpoint store\<close>

text \<open>
  A sweep that has returned left every relation's result in the store under the
  relation's name, provided no later relation of the same name overwrote it; a second
  sweep that resumes then loads them all.
\<close>

lemma rerun_with_resume:
  assumes "sweep_faithfulness env cfg dataset w = Inr (res, w1)"
    and "resume cfg \<or> distinct (map name dataset)"
  shows "sweep_faithfulness env (cfg\<lparr>resume := True\<rparr>) dataset w1 = Inr (res, w1)"
proof -
  let ?lys = "case h_layers cfg of None \<Rightarrow> determine_layers env | Some ls \<Rightarrow> ls"
  let ?bts = "case betas cfg of None \<Rightarrow> default_betas | Some bs \<Rightarrow> bs"
  from assms(1) obtain ress where
    run: "relation_loop env ?lys ?bts cfg dataset w = Inr (ress, w1)" and
    res: "res = \<lparr> relations = ress \<rparr>"
    by (auto simp add: sweep_faithfulness_def Let_def split: sum.splits)
  from relation_loop_reload[OF relation_loop_store(1)[OF run] relation_loop_saved[OF run assms(2)],
      of "cfg\<lparr>resume := True\<rparr>" env ?lys ?bts]
  have "relation_loop env ?lys ?bts (cfg\<lparr>resume := True\<rparr>) dataset w1 = Inr (ress, w1)" by simp
  with res show ?thesis by (simp add: sweep_faithfulness_def Let_def)
qed

text \<open>
  C7. With \<open>resume\<close> set and a result stored under the relation's name, the sweep is
  claimed to load that result verbatim without computing, so that running the sweep
  once and then again with \<open>resume\<close> gives the result of the first run. The store is
  keyed by relation name only: for a dataset of two relations named \<open>r\<close>, the first
  without samples, a first run without \<open>resume\<close> returns an empty trial list for the
  first relation and saves the second relation's result over it, and the second run,
  resuming, returns the second relation's result for both.
\<close>

theorem resume_same_name_differs:
  "sweep_faithfulness ex_env ex_config [ex_relation\<lparr>samples := []\<rparr>, ex_relation] ex_world =
     Inr (\<lparr> relations = [\<lparr> relation_name = ''r'', trials = [] \<rparr>,
                          \<lparr> relation_name = ''r'', trials = [ex_trial] \<rparr>] \<rparr>, ex_world_after)
   \<and> sweep_faithfulness ex_env (ex_config\<lparr>resume := True\<rparr>)
       [ex_relation\<lparr>samples := []\<rparr>, ex_relation] ex_world_after =
     Inr (\<lparr> relations = [\<lparr> relation_name = ''r'', trials = [ex_trial] \<rparr>,
                          \<lparr> relation_name = ''r'', trials = [ex_trial] \<rparr>] \<rparr>, ex_world_after)
   \<and> \<lparr> relations = [\<lparr> relation_name = ''r'', trials = [] \<rparr>,
                      \<lparr> relation_name = ''r'', trials = [ex_trial] \<rparr>] \<rparr>
     \<noteq> \<lparr> relations = [\<lparr> relation_name = ''r'', trials = [ex_trial] \<rparr>,
                        \<lparr> relation_name = ''r'', trials = [ex_trial] \<rparr>] \<rparr>"
  by (simp add: model_defs ex_defs)

text \<open>
  C7, amended. With \<open>resume\<close> set and a result stored under the relation's name, the
  sweep of that relation returns the stored result and leaves the world as it was: no
  warning, no call of the precompute or the estimator, no draw from the generator, no
  write to the store. And when a sweep has returned, the same sweep run again with
  \<open>resume\<close> set, in the world the first run left, returns the same result and changes
  nothing, provided the relation names of the dataset are pairwise distinct or the
  first run was itself resuming.
\<close>

theorem resume_loads_verbatim:
  "(resume cfg \<and> store w (name relation) = Some r \<longrightarrow>
      sweep_relation env lys bts cfg relation w = Inr (r, w))
 \<and> (sweep_faithfulness env cfg dataset w = Inr (res, w1)
      \<and> (resume cfg \<or> distinct (map name dataset)) \<longrightarrow>
      sweep_faithfulness env (cfg\<lparr>resume := True\<rparr>) dataset w1 = Inr (res, w1))"
  using sweep_relation_loaded rerun_with_resume by blast

theorem resume_loads_verbatim_witness:
  "sweep_relation ex_env [0, 1] [0, 1/2] (ex_config\<lparr>resume := True\<rparr>) ex_relation ex_world_single =
     Inr (\<lparr> relation_name = ''r'', trials = [ex_trial] \<rparr>, ex_world_single)
   \<and> sweep_faithfulness ex_env (ex_config\<lparr>resume := True\<rparr>) [ex_relation] ex_world_single =
     Inr (\<lparr> relations = [\<lparr> relation_name = ''r'', trials = [ex_trial] \<rparr>] \<rparr>, ex_world_single)"
proof -
  have first: "sweep_faithfulness ex_env ex_config [ex_relation] ex_world =
     Inr (\<lparr> relations = [\<lparr> relation_name = ''r'', trials = [ex_trial] \<rparr>] \<rparr>, ex_world_single)"
    by (simp add: model_defs ex_defs)
  have d: "resume ex_config \<or> distinct (map name [ex_relation])" by simp
  have l: "resume (ex_config\<lparr>resume := True\<rparr>)
      \<and> store ex_world_single (name ex_relation) = Some \<lparr> relation_name = ''r'', trials = [ex_trial] \<rparr>"
    by (simp add: ex_defs)
  from resume_loads_verbatim[where cfg = "ex_config\<lparr>resume := True\<rparr>" and w = ex_world_single
        and relation = ex_relation and env = ex_env and lys = "[0, 1]" and bts = "[0, 1/2]",
        THEN conjunct1, rule_format, OF l]
    resume_loads_verbatim[THEN conjunct2, rule_format, OF conjI[OF first d]]
  show ?thesis by blast
qed

subsection \<open>A relation with too few samples\<close>



subsection \<open>Only the first prompt template\<close>

text \<open>
  C9. For a relation that is computed and whose sweep returns, there is a first prompt
  template, every trial result records it, and every event the sweep of the relation
  adds to the trace mentions no other template: the precompute is called with it and
  the estimator with a relation whose only template it is. The other templates are not
  read: replacing them by any others leaves the result and the world the same, as long
  as \<open>Relation.split\<close>, the one collaborator that is handed the whole relation, draws the
  same samples.
\<close>

theorem first_template_only:
  assumes "load_results_file w (name relation) (resume cfg) = None"
    and "sweep_relation env lys bts cfg relation w = Inr (res, w')"
  shows "\<exists>tmpl rest new.
           prompt_templates relation = tmpl # rest
         \<and> list_all (\<lambda>t. prompt_template t = tmpl) (trials res)
         \<and> trace w' = trace w @ new \<and> list_all (only_template tmpl) new
         \<and> (\<forall>others.
              (\<forall>g. split_samples env g (relation\<lparr>prompt_templates := tmpl # others\<rparr>) (n_train_samples cfg)
                  = split_samples env g relation (n_train_samples cfg)) \<longrightarrow>
              sweep_relation env lys bts cfg (relation\<lparr>prompt_templates := tmpl # others\<rparr>) w
                = Inr (res, w'))"
proof -
  from sweep_relation_computed[OF assms] obtain tmpl rest trs w1 where
    t: "prompt_templates relation = tmpl # rest" and
    tl: "trial_loop env lys bts cfg relation tmpl (nat (n_trials cfg)) w = Inr (trs, w1)" and
    res: "res = \<lparr> relation_name = name relation, trials = trs \<rparr>" and
    w': "w' = save_results_file w1 (name relation) res"
    by blast
  from trial_loop_trace[OF tl] obtain new where
    n: "list_all (\<lambda>t. prompt_template t = tmpl) trs" "trace w1 = trace w @ new"
       "list_all (only_template tmpl) new" by blast
  have tr: "trace w' = trace w @ new" using w' n(2) by (simp add: save_results_file_def)
  have ind: "sweep_relation env lys bts cfg (relation\<lparr>prompt_templates := tmpl # others\<rparr>) w
                = Inr (res, w')"
    if "\<forall>g. split_samples env g (relation\<lparr>prompt_templates := tmpl # others\<rparr>) (n_train_samples cfg)
                  = split_samples env g relation (n_train_samples cfg)" for others
  proof -
    have "sweep_relation env lys bts cfg (relation\<lparr>prompt_templates := tmpl # others\<rparr>) w =
          sweep_relation env lys bts cfg relation w"
      using t assms(1)
      by (simp add: sweep_relation_def pyidx_first trial_loop_templates[OF that] Let_def
          split: sum.splits prod.splits)
    with assms(2) show ?thesis by simp
  qed
  from t n(1) tr n(3) ind res show ?thesis by auto
qed

theorem first_template_only_witness:
  "\<exists>tmpl rest new.
           prompt_templates ex_relation = tmpl # rest
         \<and> list_all (\<lambda>t. prompt_template t = tmpl) (trials \<lparr> relation_name = ''r'', trials = [ex_trial] \<rparr>)
         \<and> trace ex_world_single = trace ex_world @ new \<and> list_all (only_template tmpl) new
         \<and> (\<forall>others.
              (\<forall>g. split_samples ex_env g (ex_relation\<lparr>prompt_templates := tmpl # others\<rparr>)
                     (n_train_samples ex_config)
                  = split_samples ex_env g ex_relation (n_train_samples ex_config)) \<longrightarrow>
              sweep_relation ex_env [0, 1] [0, 1/2] ex_config
                  (ex_relation\<lparr>prompt_templates := tmpl # others\<rparr>) ex_world
                = Inr (\<lparr> relation_name = ''r'', trials = [ex_trial] \<rparr>, ex_world_single))"
proof -
  have a: "load_results_file ex_world (name ex_relation) (resume ex_config) = None"
    by (simp add: ex_defs load_results_file_def)
  have b: "sweep_relation ex_env [0, 1] [0, 1/2] ex_config ex_relation ex_world =
      Inr (\<lparr> relation_name = ''r'', trials = [ex_trial] \<rparr>, ex_world_single)"
    by (simp add: model_defs ex_defs)
  from first_template_only[OF a b] show ?thesis .
qed

text \<open>In the example world the split ignores the templates, so the template \<open>u\<close> can go.\<close>

lemma ex_other_templates_unused:
  "sweep_relation ex_env [0, 1] [0, 1/2] ex_config (ex_relation\<lparr>prompt_templates := [''t'']\<rparr>) ex_world
     = sweep_relation ex_env [0, 1] [0, 1/2] ex_config ex_relation ex_world"
  by (simp add: model_defs ex_defs)

subsection \<open>Batches of the activation precompute\<close>

text \<open>The slices of \<open>range(0, n, b)\<close> put back together are the rows.\<close>

lemma chunks_cover:
  assumes "0 < b"
  shows "length xs \<le> m * b \<Longrightarrow> concat (map (\<lambda>j. slice xs (j * b) b) [0..<m]) = xs"
proof (induction m arbitrary: xs)
  case 0
  then show ?case by simp
next
  case (Suc m)
  have len: "length (drop b xs) \<le> m * b" using Suc.prems by simp
  have shift: "map (\<lambda>j. slice xs (j * b) b) (map Suc [0..<m]) = map (\<lambda>j. slice (drop b xs) (j * b) b) [0..<m]"
    by (simp add: slice_def add.commute)
  have "[0..<Suc m] = 0 # map Suc [0..<m]"
    by (simp add: upt_conv_Cons map_Suc_upt del: upt_Suc)
  then have "concat (map (\<lambda>j. slice xs (j * b) b) [0..<Suc m]) =
        slice xs 0 b @ concat (map (\<lambda>j. slice xs (j * b) b) (map Suc [0..<m]))"
    by (simp del: upt_Suc)
  also have "\<dots> = take b xs @ concat (map (\<lambda>j. slice (drop b xs) (j * b) b) [0..<m])"
    unfolding shift by (simp add: slice_def)
  also have "\<dots> = take b xs @ drop b xs" using Suc.IH[OF len] by simp
  finally show ?case by simp
qed

lemma ceil_div_covers:
  assumes "0 < (b::nat)"
  shows "n \<le> ((n + b - 1) div b) * b"
proof -
  have "(n + b - 1) = ((n + b - 1) div b) * b + (n + b - 1) mod b" by simp
  moreover have "(n + b - 1) mod b < b" using assms by simp
  ultimately show ?thesis using assms by linarith
qed

lemma ceil_div_pos: "0 < (b::nat) \<Longrightarrow> 0 < n \<Longrightarrow> 0 < (n + b - 1) div b"
  by (simp add: div_greater_zero_iff)

lemma hidden_states_rowwise:
  assumes fw: "\<forall>rows. forward env rows = map (\<lambda>g. map g rows) fs" and bs: "1 \<le> bs"
  shows "(case batched_hidden_states env rows bs of Inl e \<Rightarrow> Inl e | Inr batched \<Rightarrow> torch_cat1 batched)
       = (if rows = [] then Inl RuntimeError else Inr (map (\<lambda>g. map g rows) (tl fs)))"
proof -
  let ?b = "nat bs"
  let ?m = "(length rows + ?b - 1) div ?b"
  let ?chunk = "\<lambda>j. slice rows (j * ?b) ?b"
  let ?batched = "map (\<lambda>j. map (\<lambda>g. map g (?chunk j)) (tl fs)) [0..<?m]"
  have b: "0 < ?b" using bs by simp
  have bh: "batched_hidden_states env rows bs = Inr ?batched"
    using bs fw by (simp add: batched_hidden_states_def py_range0_def map_tl comp_def)
  show ?thesis
  proof (cases "rows = []")
    case True
    then have "?m = 0" using b by simp
    with bh have "batched_hidden_states env rows bs = Inr []" by simp
    with True show ?thesis by (simp add: torch_cat1_def)
  next
    case False
    then have m: "0 < ?m" using ceil_div_pos[OF b, of "length rows"] by simp
    then obtain m' where m': "?m = Suc m'" by (cases ?m) auto
    have ne: "?batched \<noteq> []" using m by simp
    have all: "\<forall>t\<in>set ?batched. length t = length (tl fs)" by auto
    obtain t ts where tts: "?batched = t # ts" using ne by (cases ?batched) auto
    from all[unfolded tts]
    have lt: "length t = length (tl fs)" and lts: "list_all (\<lambda>t'. length t' = length t) ts"
      by (simp_all add: list_all_iff)
    have cat: "torch_cat1 ?batched =
        Inr (map (\<lambda>l. concat (map (\<lambda>c. c ! l) ?batched)) [0..<length (tl fs)])"
      using tts lt lts unfolding torch_cat1_def by (simp del: upt_Suc)
    have layer: "concat (map (\<lambda>c. c ! l) ?batched) = map (tl fs ! l) rows" if "l < length (tl fs)" for l
    proof -
      have step: "map (\<lambda>c. c ! l) ?batched = map (\<lambda>j. map (tl fs ! l) (?chunk j)) [0..<?m]"
        using that by (simp del: upt_Suc)
      have "concat (map (\<lambda>j. map (tl fs ! l) (?chunk j)) [0..<?m]) =
            map (tl fs ! l) (concat (map ?chunk [0..<?m]))"
        by (simp add: map_concat comp_def del: upt_Suc)
      also have "\<dots> = map (tl fs ! l) rows"
        using chunks_cover[OF b ceil_div_covers[OF b], of rows] by simp
      finally show ?thesis unfolding step .
    qed
    have "map (\<lambda>l. concat (map (\<lambda>c. c ! l) ?batched)) [0..<length (tl fs)] =
          map (\<lambda>l. map (tl fs ! l) rows) [0..<length (tl fs)]"
      using layer by (simp del: upt_Suc)
    also have "\<dots> = map (\<lambda>g. map g rows) (map ((!) (tl fs)) [0..<length (tl fs)])"
      by (simp add: comp_def del: upt_Suc map_nth)
    also have "\<dots> = map (\<lambda>g. map g rows) (tl fs)"
      by (simp only: map_nth)
    finally have "torch_cat1 ?batched = Inr (map (\<lambda>g. map g rows) (tl fs))"
      by (simp only: cat)
    then show ?thesis using False by (simp only: bh sum.case if_False)
  qed
qed

text \<open>
  C8. For every list of subjects and every batch size \<open>b \<ge> 1\<close>, the activation cache
  computed with batch size \<open>b\<close> is the one computed with batch size 1, error results
  included (with no rows to run, \<open>torch.cat\<close> fails for either). The model's forward pass is
  a parameter; it is taken to compute every row of a batch on its own: some list \<open>fs\<close>
  of functions, one per layer, gives the hidden states of a row whatever batch the row
  is in. The rows are padded before they are cut into batches, so a row is the same in
  every batch.
\<close>

theorem precompute_batch_invariant:
  assumes "\<forall>rows. forward env rows = map (\<lambda>g. map g rows) fs" and "1 \<le> bs"
  shows "precompute_hs env tmpl subjects examples bs = precompute_hs env tmpl subjects examples 1"
proof -
  let ?rows = "map fst (tokenizer env (map (\<lambda>s. make_prompt env tmpl s examples) subjects))"
  have "(case batched_hidden_states env ?rows bs of Inl e \<Rightarrow> Inl e | Inr batched \<Rightarrow> torch_cat1 batched)
      = (case batched_hidden_states env ?rows 1 of Inl e \<Rightarrow> Inl e | Inr batched \<Rightarrow> torch_cat1 batched)"
    using hidden_states_rowwise[OF assms] hidden_states_rowwise[OF assms(1), of 1] by simp
  then show ?thesis
    by (auto simp add: precompute_hs_def Let_def split: sum.splits)
qed

theorem precompute_batch_invariant_witness:
  "precompute_hs ex_env ''t'' [''a'', ''b'', ''d''] [\<lparr> subject = ''a'', object = ''a'' \<rparr>] 64 =
     precompute_hs ex_env ''t'' [''a'', ''b'', ''d''] [\<lparr> subject = ''a'', object = ''a'' \<rparr>] 1
   \<and> precompute_hs ex_env ''t'' [''a'', ''b'', ''d''] [\<lparr> subject = ''a'', object = ''a'' \<rparr>] 2 =
     precompute_hs ex_env ''t'' [''a'', ''b'', ''d''] [\<lparr> subject = ''a'', object = ''a'' \<rparr>] 1"
proof -
  have fw: "\<forall>rows. forward ex_env rows =
      map (\<lambda>g. map g rows) [map (Pair 0), map (Pair 1), map (Pair 2)]"
    by (simp add: ex_env_def)
  have "(1::int) \<le> 64" "(1::int) \<le> 2" by simp_all
  from precompute_batch_invariant[OF fw this(1)] precompute_batch_invariant[OF fw this(2)]
  show ?thesis by blast
qed

text \<open>The cache of the example, computed in batches of two rows.\<close>

lemma ex_precompute_hs:
  "precompute_hs ex_env ''t'' [''a'', ''b'', ''d''] [\<lparr> subject = ''a'', object = ''a'' \<rparr>] 2 =
     Inr [(''a'', [(1, CHR ''a''), (2, CHR ''a'')]), (''b'', [(1, CHR ''b''), (2, CHR ''b'')]),
          (''d'', [(1, CHR ''d''), (2, CHR ''d'')])]"
  by (simp add: model_defs ex_defs)

end
